theory Spec2Isabelle
  imports Main
begin

text \<open>
  A model of the admin proxy \<^verbatim>\<open>save.js\<close>: the auth gate \<^verbatim>\<open>adminAuth\<close>, the date normalizer
  and the record mapper of the import handler, the import pipeline with its calls to the
  persistence layer, and the check of the export handler.  The identity service and the
  database are parameters; every call the handlers make to them is recorded.
\<close>

section \<open>JavaScript values used by the server\<close>

text \<open>
  Strings are lists of characters.  A header, a query parameter or a body field that the
  request does not carry is \<open>undefined\<close> in the source and \<open>None\<close> here.
\<close>

definition truthy_str :: "string option \<Rightarrow> bool" where
  "truthy_str v = (case v of None \<Rightarrow> False | Some s \<Rightarrow> s \<noteq> [])"

text \<open>The operator \<^verbatim>\<open>a || b\<close> on optional strings.\<close>

definition or_str :: "string option \<Rightarrow> string option \<Rightarrow> string option" where
  "or_str a b = (if truthy_str a then a else b)"

text \<open>\<^verbatim>\<open>s.split(c)\<close> for a one-character separator: the empty string splits into one
  empty piece.\<close>

fun split_on :: "char \<Rightarrow> string \<Rightarrow> string list" where
  "split_on c [] = [[]]"
| "split_on c (x # xs) =
     (if x = c then [] # split_on c xs
      else (case split_on c xs of [] \<Rightarrow> [[x]] | p # ps \<Rightarrow> (x # p) # ps))"

text \<open>\<^verbatim>\<open>toLowerCase\<close> on the letters A to Z; every other character is kept (no character
  outside A to Z lower-cases to one of the letters the gate compares with).\<close>

definition lower_char :: "char \<Rightarrow> char" where
  "lower_char c =
     (let n = (of_char c :: nat) in if 65 \<le> n \<and> n \<le> 90 then char_of (n + 32) else c)"

definition toLowerCase :: "string \<Rightarrow> string" where
  "toLowerCase s = map lower_char s"

section \<open>The auth gate (adminAuth)\<close>

record config =
  ADMIN_API_KEY :: "string option"
  ADMIN_EMAILS :: "string list"

text \<open>The credential material of a request: the three places a static key is read from
  and the authorization header.\<close>

record auth_request =
  x_admin_key :: "string option"
  query_admin_key :: "string option"
  x_legacy_admin_key :: "string option"
  authorization :: "string option"

text \<open>
  A claim in the user's \<^verbatim>\<open>app_metadata\<close>, which is free-form JSON: absent, or null, a
  boolean, a number, a string, or an array or object (\<open>Obj_claim\<close>; what it holds plays no
  role, it is truthy and has no method \<^verbatim>\<open>toLowerCase\<close>).
\<close>

datatype claim =
  No_claim | Null_claim | Bool_claim bool | Num_claim int | Str_claim string | Obj_claim

fun truthy_claim :: "claim \<Rightarrow> bool" where
  "truthy_claim No_claim = False"
| "truthy_claim Null_claim = False"
| "truthy_claim (Bool_claim b) = b"
| "truthy_claim (Num_claim n) = (n \<noteq> 0)"
| "truthy_claim (Str_claim s) = (s \<noteq> [])"
| "truthy_claim Obj_claim = True"

text \<open>The operator \<^verbatim>\<open>a || b\<close> on claims.\<close>

definition or_claim :: "claim \<Rightarrow> claim \<Rightarrow> claim" where
  "or_claim a b = (if truthy_claim a then a else b)"

text \<open>The user the identity service resolves: \<^verbatim>\<open>user.app_metadata.role\<close> (\<open>No_claim\<close> also
  when \<^verbatim>\<open>app_metadata\<close> is absent) and \<^verbatim>\<open>user.email\<close>, a string or absent.\<close>

record user =
  role :: claim
  email :: "string option"

text \<open>What \<^verbatim>\<open>await sb.auth.getUser(token)\<close> does: it throws, or it returns
  \<^verbatim>\<open>{ data, error }\<close>.\<close>

datatype getUser_result = Threw | Returned bool "user option"

text \<open>The gate either calls \<^verbatim>\<open>next()\<close> (with \<^verbatim>\<open>req.adminUser\<close> set or not) or answers
  with a status and an error text.\<close>

datatype auth_outcome = Next "user option" | Reject nat string

text \<open>Line 33: the key is the first non-empty value among the two headers and the query
  parameter.\<close>

definition presented_key :: "auth_request \<Rightarrow> string option" where
  "presented_key req =
     or_str (or_str (x_admin_key req) (query_admin_key req)) (x_legacy_admin_key req)"

text \<open>Line 34: the static key admits.\<close>

definition static_key_admits :: "config \<Rightarrow> auth_request \<Rightarrow> bool" where
  "static_key_admits cfg req =
     (truthy_str (presented_key req) \<and> truthy_str (ADMIN_API_KEY cfg) \<and>
      presented_key req = ADMIN_API_KEY cfg)"

text \<open>Lines 36 to 38: the token of a bearer-style authorization header.\<close>

definition bearer_token :: "auth_request \<Rightarrow> string option" where
  "bearer_token req =
     (let auth = split_on CHR '' '' (case or_str (authorization req) (Some []) of
                                       None \<Rightarrow> [] | Some a \<Rightarrow> a)
      in if length auth = 2 \<and> toLowerCase (auth ! 0) = ''bearer''
         then Some (auth ! 1) else None)"

text \<open>What line 43 throws when \<^verbatim>\<open>role\<close> is truthy and no string:
  \<^verbatim>\<open>role.toLowerCase is not a function\<close>.\<close>

datatype type_error = TypeError

text \<open>Line 43, the test \<^verbatim>\<open>role && role.toLowerCase() === 'admin'\<close>: the method is called
  on every truthy value of \<^verbatim>\<open>role\<close>.\<close>

definition role_is_admin :: "claim \<Rightarrow> type_error + bool" where
  "role_is_admin r =
     (if truthy_claim r
      then (case r of Str_claim s \<Rightarrow> Inr (toLowerCase s = ''admin'') | _ \<Rightarrow> Inl TypeError)
      else Inr False)"

text \<open>Lines 41 to 45, once a user is resolved.\<close>

definition authorize_user :: "config \<Rightarrow> user \<Rightarrow> type_error + auth_outcome" where
  "authorize_user cfg usr =
     (case role_is_admin (or_claim (role usr) (Str_claim [])) of
        Inl e \<Rightarrow> Inl e
      | Inr admin \<Rightarrow>
          Inr (if admin then Next (Some usr)
               else if ADMIN_EMAILS cfg \<noteq> [] \<and>
                       (case email usr of None \<Rightarrow> False | Some e \<Rightarrow> e \<in> set (ADMIN_EMAILS cfg))
                    then Next (Some usr)
               else Reject 403 ''forbidden''))"

text \<open>The gate.  The second component lists the tokens sent to the identity service, in
  order.  Whatever is thrown inside the \<^verbatim>\<open>try\<close> block, by the identity service or by line
  43, is answered by the \<^verbatim>\<open>catch\<close> of lines 49 to 52.\<close>

definition adminAuth ::
  "config \<Rightarrow> (string \<Rightarrow> getUser_result) \<Rightarrow> auth_request \<Rightarrow> auth_outcome \<times> string list" where
  "adminAuth cfg getUser req =
     (if static_key_admits cfg req then (Next None, [])
      else (case bearer_token req of
              Some token \<Rightarrow>
                (case getUser token of
                   Threw \<Rightarrow> (Reject 500 ''auth error'', [token])
                 | Returned err u \<Rightarrow>
                     (case u of
                        None \<Rightarrow> (Reject 401 ''invalid token'', [token])
                      | Some usr \<Rightarrow>
                          if err then (Reject 401 ''invalid token'', [token])
                          else (case authorize_user cfg usr of
                                  Inl e \<Rightarrow> (Reject 500 ''auth error'', [token])
                                | Inr out \<Rightarrow> (out, [token]))))
            | None \<Rightarrow> (Reject 401 ''missing credentials'', [])))"

section \<open>Spreadsheet cells\<close>

text \<open>
  A cell of a parsed row as the handler sees it: a missing column is \<open>Undefined\<close>, the
  CSV parser yields strings, the workbook reader yields strings, numbers, booleans and
  (with \<^verbatim>\<open>cellDates\<close>) Date objects.  \<open>Num n\<close> is the number nearest to the integer
  \<open>n\<close> (\<open>n\<close> itself when \<open>n\<close> has at most 53 significant bits); numbers with a fractional
  part are not represented.  \<open>DateObj t s\<close> is a valid Date
  with time value \<open>t\<close> (milliseconds since 1970-01-01T00:00Z) whose host-dependent
  \<^verbatim>\<open>String(v)\<close> rendering is \<open>s\<close>.  \<open>Null\<close> only arises as the default of a field.
\<close>

datatype cell =
  Undefined | Null | Str string | Num int | Bool bool | DateObj int string | InvalidDate

fun truthy :: "cell \<Rightarrow> bool" where
  "truthy Undefined = False"
| "truthy Null = False"
| "truthy (Str s) = (s \<noteq> [])"
| "truthy (Num n) = (n \<noteq> 0)"
| "truthy (Bool b) = b"
| "truthy (DateObj t s) = True"
| "truthy InvalidDate = True"

text \<open>The operator \<^verbatim>\<open>a || b\<close> on cells.\<close>

definition js_or :: "cell \<Rightarrow> cell \<Rightarrow> cell" where
  "js_or a b = (if truthy a then a else b)"

definition digit_char :: "nat \<Rightarrow> char" where
  "digit_char n = char_of (48 + n)"

text \<open>The decimal numeral of a natural number.\<close>

fun show_nat :: "nat \<Rightarrow> string" where
  "show_nat n = (if n < 10 then [digit_char n] else show_nat (n div 10) @ [digit_char (n mod 10)])"

declare show_nat.simps [simp del]

text \<open>
  \<^verbatim>\<open>String(n)\<close> for a number, after Number::toString of ECMA-262.  A number is a double:
  \<open>nearest_double\<close> rounds an integer to 53 significant bits, ties to even.  The digits
  written are those of the least number of digits \<open>k\<close> for which some \<open>s\<close> of \<open>k\<close> digits
  times a power of ten still denotes the same double; of two such \<open>s\<close> the one nearer to
  the number, and the even one when both are as near.  Up to 21 integer digits the
  numeral is padded with zeros, beyond that the exponent form is used.
\<close>

fun bit_length :: "int \<Rightarrow> nat" where
  "bit_length n = (if n \<le> 0 then 0 else Suc (bit_length (n div 2)))"

declare bit_length.simps [simp del]

definition nearest_double :: "int \<Rightarrow> int" where
  "nearest_double r =
     (if bit_length r \<le> 53 then r
      else (let e = bit_length r - 53; q = r div 2 ^ e; m = r mod 2 ^ e; h = 2 ^ (e - 1)
            in (if h < m \<or> (m = h \<and> odd q) then q + 1 else q) * 2 ^ e))"

fun digits :: "int \<Rightarrow> string" where
  "digits n =
     (if n < 10 then [digit_char (nat n)] else digits (n div 10) @ [digit_char (nat (n mod 10))])"

declare digits.simps [simp del]

text \<open>\<open>shortest_digits x d k\<close>: \<open>x\<close> is a positive double with \<open>d\<close> integer digits, and no
  numeral of fewer than \<open>k\<close> digits denotes it.  The result is \<open>s\<close> and the number \<open>n\<close> of
  integer digits of \<open>s\<close> times its power of ten.\<close>

function shortest_digits :: "int \<Rightarrow> nat \<Rightarrow> nat \<Rightarrow> int \<times> nat" where
  "shortest_digits x d k =
     (if d \<le> k then (x, d)
      else (let p = 10 ^ (d - k); lo = x div p;
                a = (nearest_double (lo * p) = x); b = (nearest_double ((lo + 1) * p) = x)
            in if a \<or> b
               then (let s = (if a \<and> b
                              then (if x - lo * p < (lo + 1) * p - x then lo
                                    else if (lo + 1) * p - x < x - lo * p then lo + 1
                                    else if even lo then lo else lo + 1)
                              else if a then lo else lo + 1)
                     in if s = 10 ^ k then (1, d + 1) else (s, d))
               else shortest_digits x d (k + 1)))"
  by pat_completeness auto
termination
  by (relation "measure (\<lambda>(x, d, k). d - k)") auto

declare shortest_digits.simps [simp del]

text \<open>A positive integer; beyond the largest double the number is \<^verbatim>\<open>Infinity\<close>.\<close>

definition Number_text :: "int \<Rightarrow> string" where
  "Number_text r =
     (let x = nearest_double r in
      if 1024 < bit_length x then ''Infinity''
      else (let (s, n) = shortest_digits x (length (digits x)) 1; ds = digits s;
                k = length ds
            in if n \<le> 21 then ds @ replicate (n - k) CHR ''0''
               else (if k = 1 then ds else hd ds # CHR ''.'' # tl ds) @ ''e+'' @
                    show_nat (n - 1)))"

definition Number_toString :: "int \<Rightarrow> string" where
  "Number_toString i =
     (if i = 0 then ''0''
      else if i < 0 then CHR ''-'' # Number_text (- i) else Number_text i)"

text \<open>\<^verbatim>\<open>String(v)\<close>.\<close>

fun String_of :: "cell \<Rightarrow> string" where
  "String_of Undefined = ''undefined''"
| "String_of Null = ''null''"
| "String_of (Str s) = s"
| "String_of (Num n) = Number_toString n"
| "String_of (Bool b) = (if b then ''true'' else ''false'')"
| "String_of (DateObj t s) = s"
| "String_of InvalidDate = ''Invalid Date''"

text \<open>
  \<^verbatim>\<open>s.trim()\<close> removes white space and line terminators at both ends.  Strings are held
  as their UTF-8 bytes, so each such character is the byte sequence that encodes it:
  U+0009 to U+000D, U+0020, U+00A0, U+1680, U+2000 to U+200A, U+2028, U+2029, U+202F,
  U+205F, U+3000 and U+FEFF.
\<close>

definition white_space :: "string list" where
  "white_space =
     [[CHR 0x09], [CHR 0x0A], [CHR 0x0B], [CHR 0x0C], [CHR 0x0D], [CHR 0x20],
      [CHR 0xC2, CHR 0xA0], [CHR 0xE1, CHR 0x9A, CHR 0x80],
      [CHR 0xE2, CHR 0x80, CHR 0x80], [CHR 0xE2, CHR 0x80, CHR 0x81],
      [CHR 0xE2, CHR 0x80, CHR 0x82], [CHR 0xE2, CHR 0x80, CHR 0x83],
      [CHR 0xE2, CHR 0x80, CHR 0x84], [CHR 0xE2, CHR 0x80, CHR 0x85],
      [CHR 0xE2, CHR 0x80, CHR 0x86], [CHR 0xE2, CHR 0x80, CHR 0x87],
      [CHR 0xE2, CHR 0x80, CHR 0x88], [CHR 0xE2, CHR 0x80, CHR 0x89],
      [CHR 0xE2, CHR 0x80, CHR 0x8A], [CHR 0xE2, CHR 0x80, CHR 0xA8],
      [CHR 0xE2, CHR 0x80, CHR 0xA9], [CHR 0xE2, CHR 0x80, CHR 0xAF],
      [CHR 0xE2, CHR 0x81, CHR 0x9F], [CHR 0xE3, CHR 0x80, CHR 0x80],
      [CHR 0xEF, CHR 0xBB, CHR 0xBF]]"

text \<open>Remove from the front of \<open>s\<close> every leading occurrence of one of the sequences
  \<open>ws\<close>.\<close>

function strip_start :: "string list \<Rightarrow> string \<Rightarrow> string" where
  "strip_start ws s =
     (case find (\<lambda>w. w \<noteq> [] \<and> take (length w) s = w) ws of
        None \<Rightarrow> s
      | Some w \<Rightarrow> strip_start ws (drop (length w) s))"
  by pat_completeness auto
termination
proof (relation "measure (\<lambda>(ws, s). length s)")
  show "wf (measure (\<lambda>(ws, s). length s))" by simp
next
  fix ws :: "string list" and s w :: string
  assume "find (\<lambda>w. w \<noteq> [] \<and> take (length w) s = w) ws = Some w"
  then have w: "w \<noteq> []" "take (length w) s = w"
    by (auto simp: find_Some_iff)
  from w(2) have "length w \<le> length s"
    by (metis length_take min.cobounded1)
  with w(1) show "((ws, drop (length w) s), (ws, s)) \<in> measure (\<lambda>(ws, s). length s)"
    by (cases w) auto
qed

declare strip_start.simps [simp del]

text \<open>The end is stripped on the reversed string, with the sequences reversed.\<close>

definition trim :: "string \<Rightarrow> string" where
  "trim s = rev (strip_start (map rev white_space) (rev (strip_start white_space s)))"

text \<open>\<^verbatim>\<open>s.padStart(n, c)\<close>.\<close>

definition padStart :: "nat \<Rightarrow> char \<Rightarrow> string \<Rightarrow> string" where
  "padStart n c s = replicate (n - length s) c @ s"

section \<open>Date.prototype.toISOString\<close>

text \<open>
  The built-in is modelled after its definition in ECMA-262 (Day, DaysInYear, DayFromYear,
  YearFromTime, DayWithinYear, MonthFromTime, DateFromTime).  The standard defines
  YearFromTime as the largest year whose first day is not after the given time;
  \<open>YearFromDay\<close> computes it from an estimate that is off by at most one year.
\<close>

definition msPerDay :: int where
  "msPerDay = 86400000"

definition Day :: "int \<Rightarrow> int" where
  "Day t = t div msPerDay"

definition TimeWithinDay :: "int \<Rightarrow> int" where
  "TimeWithinDay t = t mod msPerDay"

definition DaysInYear :: "int \<Rightarrow> int" where
  "DaysInYear y =
     (if y mod 4 \<noteq> 0 then 365 else if y mod 100 \<noteq> 0 then 366
      else if y mod 400 \<noteq> 0 then 365 else 366)"

definition DayFromYear :: "int \<Rightarrow> int" where
  "DayFromYear y =
     365 * (y - 1970) + (y - 1969) div 4 - (y - 1901) div 100 + (y - 1601) div 400"

definition YearFromDay :: "int \<Rightarrow> int" where
  "YearFromDay d =
     (let y = 1970 + (400 * d) div 146097 in
      if DayFromYear (y + 1) \<le> d then y + 1
      else if DayFromYear y \<le> d then y
      else y - 1)"

definition YearFromTime :: "int \<Rightarrow> int" where
  "YearFromTime t = YearFromDay (Day t)"

definition InLeapYear :: "int \<Rightarrow> int" where
  "InLeapYear t = (if DaysInYear (YearFromTime t) = 366 then 1 else 0)"

definition DayWithinYear :: "int \<Rightarrow> int" where
  "DayWithinYear t = Day t - DayFromYear (YearFromTime t)"

definition MonthFromTime :: "int \<Rightarrow> int" where
  "MonthFromTime t =
     (let d = DayWithinYear t; l = InLeapYear t in
      if d < 31 then 0 else if d < 59 + l then 1 else if d < 90 + l then 2
      else if d < 120 + l then 3 else if d < 151 + l then 4 else if d < 181 + l then 5
      else if d < 212 + l then 6 else if d < 243 + l then 7 else if d < 273 + l then 8
      else if d < 304 + l then 9 else if d < 334 + l then 10 else 11)"

definition DateFromTime :: "int \<Rightarrow> int" where
  "DateFromTime t =
     (let d = DayWithinYear t; l = InLeapYear t; m = MonthFromTime t in
      if m = 0 then d + 1 else if m = 1 then d - 30 else if m = 2 then d - 58 - l
      else if m = 3 then d - 89 - l else if m = 4 then d - 119 - l
      else if m = 5 then d - 150 - l else if m = 6 then d - 180 - l
      else if m = 7 then d - 211 - l else if m = 8 then d - 242 - l
      else if m = 9 then d - 272 - l else if m = 10 then d - 303 - l
      else d - 333 - l)"

text \<open>The year of the ISO format: four digits from 0 to 9999, otherwise a sign and six
  digits.\<close>

definition iso_year :: "int \<Rightarrow> string" where
  "iso_year y =
     (if 0 \<le> y \<and> y \<le> 9999 then padStart 4 CHR ''0'' (show_nat (nat y))
      else (if y < 0 then CHR ''-'' else CHR ''+'') # padStart 6 CHR ''0'' (show_nat (nat \<bar>y\<bar>)))"

definition pad2 :: "int \<Rightarrow> string" where
  "pad2 n = padStart 2 CHR ''0'' (show_nat (nat n))"

definition toISOString :: "int \<Rightarrow> string" where
  "toISOString t =
     (let w = TimeWithinDay t in
      iso_year (YearFromTime t) @ ''-'' @ pad2 (MonthFromTime t + 1) @ ''-'' @
      pad2 (DateFromTime t) @ ''T'' @ pad2 (w div 3600000) @ '':'' @
      pad2 (w div 60000 mod 60) @ '':'' @ pad2 (w div 1000 mod 60) @ ''.'' @
      padStart 3 CHR ''0'' (show_nat (nat (w mod 1000))) @ ''Z'')"

text \<open>A Date holds a time value only within 8.64e15 milliseconds of the epoch; beyond
  that \<^verbatim>\<open>new Date(t)\<close> is an invalid Date and \<^verbatim>\<open>toISOString\<close> throws a RangeError.\<close>

definition valid_time :: "int \<Rightarrow> bool" where
  "valid_time t = (\<bar>t\<bar> \<le> 8640000000000000)"

section \<open>The date normalizer (normalizeDate)\<close>

text \<open>What \<^verbatim>\<open>normalizeDate\<close> can throw, and the \<^verbatim>\<open>message\<close> the handler's \<^verbatim>\<open>catch\<close>
  then answers with.\<close>

datatype js_error = RangeError

definition message :: "js_error \<Rightarrow> string" where
  "message e = (case e of RangeError \<Rightarrow> ''Invalid time value'')"

definition is_digit :: "char \<Rightarrow> bool" where
  "is_digit c = (48 \<le> (of_char c :: nat) \<and> (of_char c :: nat) \<le> 57)"

definition is_sep :: "char \<Rightarrow> bool" where
  "is_sep c = (c = CHR ''/'' \<or> c = CHR ''-'')"

text \<open>
  Both regular expressions have the form digits, separator, digits, separator, digits,
  anchored at both ends.  A digit is no separator, so the first group of a match is
  the longest digit prefix, and so on: \<open>three_groups\<close> splits the string that way, and
  the two matchers check the group lengths the expressions ask for.
\<close>

definition three_groups :: "string \<Rightarrow> (string \<times> string \<times> string) option" where
  "three_groups s =
     (case dropWhile is_digit s of
        [] \<Rightarrow> None
      | c1 # r1 \<Rightarrow>
          if \<not> is_sep c1 then None
          else (case dropWhile is_digit r1 of
                  [] \<Rightarrow> None
                | c2 # r2 \<Rightarrow>
                    if is_sep c2 \<and> list_all is_digit r2
                    then Some (takeWhile is_digit s, takeWhile is_digit r1, r2)
                    else None))"

text \<open>\<^verbatim>\<open>s.match(/^(\d{4})[\/-](\d{1,2})[\/-](\d{1,2})$/)\<close>\<close>

definition match_iso :: "string \<Rightarrow> (string \<times> string \<times> string) option" where
  "match_iso s =
     (case three_groups s of
        None \<Rightarrow> None
      | Some (a, b, c) \<Rightarrow>
          if length a = 4 \<and> length b \<in> {1, 2} \<and> length c \<in> {1, 2}
          then Some (a, b, c) else None)"

text \<open>\<^verbatim>\<open>s.match(/^(\d{1,2})[\/-](\d{1,2})[\/-](\d{2,4})$/)\<close>\<close>

definition match_dmy :: "string \<Rightarrow> (string \<times> string \<times> string) option" where
  "match_dmy s =
     (case three_groups s of
        None \<Rightarrow> None
      | Some (a, b, c) \<Rightarrow>
          if length a \<in> {1, 2} \<and> length b \<in> {1, 2} \<and> length c \<in> {2, 3, 4}
          then Some (a, b, c) else None)"

text \<open>\<^verbatim>\<open>Number(s)\<close> on a string of digits.\<close>

definition Number_of :: "string \<Rightarrow> nat" where
  "Number_of s = foldl (\<lambda>a c. 10 * a + ((of_char c :: nat) - 48)) 0 s"

definition normalizeDate :: "cell \<Rightarrow> js_error + string option" where
  "normalizeDate v =
     (if \<not> truthy v then Inr None
      else (case v of
              DateObj t r \<Rightarrow> Inr (Some (take 10 (toISOString t)))
            | Num n \<Rightarrow>
                (let t = (n - 25569) * 86400 * 1000 in
                 if valid_time t then Inr (Some (take 10 (toISOString t)))
                 else Inl RangeError)
            | _ \<Rightarrow>
                (let s = trim (String_of v) in
                 case match_iso s of
                   Some (y, m, d) \<Rightarrow>
                     Inr (Some (y @ ''-'' @ padStart 2 CHR ''0'' m @ ''-'' @
                                padStart 2 CHR ''0'' d))
                 | None \<Rightarrow>
                     (case match_dmy s of
                        Some (d, m, yy) \<Rightarrow>
                          (let y0 = Number_of yy;
                               y = (if y0 < 100 then y0 + (if 70 \<le> y0 then 1900 else 2000)
                                    else y0)
                           in Inr (Some (show_nat y @ ''-'' @ padStart 2 CHR ''0'' m @ ''-'' @
                                         padStart 2 CHR ''0'' d)))
                      | None \<Rightarrow> Inr None))))"

section \<open>The record mapper\<close>

text \<open>A parsed row maps column names to cells; a column the row lacks reads as
  \<open>Undefined\<close>.\<close>

type_synonym row = "string \<Rightarrow> cell"

text \<open>The localized column names of the source, as their UTF-8 bytes, in the order of
  lines 203 to 212.\<close>

definition th_brand_name :: string where
  "th_brand_name =
    [CHR 0xE0, CHR 0xB8, CHR 0x8A, CHR 0xE0, CHR 0xB8, CHR 0xB7, CHR 0xE0, CHR 0xB9,
     CHR 0x88, CHR 0xE0, CHR 0xB8, CHR 0xAD, CHR 0xE0, CHR 0xB8, CHR 0x81, CHR 0xE0,
     CHR 0xB8, CHR 0xB2, CHR 0xE0, CHR 0xB8, CHR 0xA3, CHR 0xE0, CHR 0xB8, CHR 0x84,
     CHR 0xE0, CHR 0xB9, CHR 0x89, CHR 0xE0, CHR 0xB8, CHR 0xB2]"

definition th_common_label :: string where
  "th_common_label =
    [CHR 0xE0, CHR 0xB8, CHR 0x8A, CHR 0xE0, CHR 0xB8, CHR 0xB7, CHR 0xE0, CHR 0xB9,
     CHR 0x88, CHR 0xE0, CHR 0xB8, CHR 0xAD, CHR 0xE0, CHR 0xB8, CHR 0xAA, CHR 0xE0,
     CHR 0xB8, CHR 0xB2, CHR 0xE0, CHR 0xB8, CHR 0xA1, CHR 0xE0, CHR 0xB8, CHR 0xB1,
     CHR 0xE0, CHR 0xB8, CHR 0x8D, CHR ''/'', CHR 0xE0, CHR 0xB8, CHR 0xAA, CHR 0xE0,
     CHR 0xB8, CHR 0xB9, CHR 0xE0, CHR 0xB8, CHR 0x95, CHR 0xE0, CHR 0xB8, CHR 0xA3]"

definition th_registration_no :: string where
  "th_registration_no =
    [CHR 0xE0, CHR 0xB8, CHR 0x97, CHR 0xE0, CHR 0xB8, CHR 0xB0, CHR 0xE0, CHR 0xB9,
     CHR 0x80, CHR 0xE0, CHR 0xB8, CHR 0x9A, CHR 0xE0, CHR 0xB8, CHR 0xB5, CHR 0xE0,
     CHR 0xB8, CHR 0xA2, CHR 0xE0, CHR 0xB8, CHR 0x99]"

definition th_importer :: string where
  "th_importer =
    [CHR 0xE0, CHR 0xB8, CHR 0x9C, CHR 0xE0, CHR 0xB8, CHR 0xB9, CHR 0xE0, CHR 0xB9,
     CHR 0x89, CHR 0xE0, CHR 0xB8, CHR 0x99, CHR 0xE0, CHR 0xB8, CHR 0xB3, CHR 0xE0,
     CHR 0xB9, CHR 0x80, CHR 0xE0, CHR 0xB8, CHR 0x82, CHR 0xE0, CHR 0xB9, CHR 0x89,
     CHR 0xE0, CHR 0xB8, CHR 0xB2]"

definition th_manufacturer_source :: string where
  "th_manufacturer_source =
    [CHR 0xE0, CHR 0xB8, CHR 0x9C, CHR 0xE0, CHR 0xB8, CHR 0xB9, CHR 0xE0, CHR 0xB9,
     CHR 0x89, CHR 0xE0, CHR 0xB8, CHR 0x9C, CHR 0xE0, CHR 0xB8, CHR 0xA5, CHR 0xE0,
     CHR 0xB8, CHR 0xB4, CHR 0xE0, CHR 0xB8, CHR 0x95, CHR ''/'', CHR 0xE0, CHR 0xB9,
     CHR 0x81, CHR 0xE0, CHR 0xB8, CHR 0xAB, CHR 0xE0, CHR 0xB8, CHR 0xA5, CHR 0xE0,
     CHR 0xB9, CHR 0x88, CHR 0xE0, CHR 0xB8, CHR 0x87, CHR 0xE0, CHR 0xB8, CHR 0x9C,
     CHR 0xE0, CHR 0xB8, CHR 0xA5, CHR 0xE0, CHR 0xB8, CHR 0xB4, CHR 0xE0, CHR 0xB8,
     CHR 0x95]"

definition th_distributor :: string where
  "th_distributor =
    [CHR 0xE0, CHR 0xB8, CHR 0x9C, CHR 0xE0, CHR 0xB8, CHR 0xB9, CHR 0xE0, CHR 0xB9,
     CHR 0x89, CHR 0xE0, CHR 0xB8, CHR 0x88, CHR 0xE0, CHR 0xB8, CHR 0xB3, CHR 0xE0,
     CHR 0xB8, CHR 0xAB, CHR 0xE0, CHR 0xB8, CHR 0x99, CHR 0xE0, CHR 0xB9, CHR 0x88,
     CHR 0xE0, CHR 0xB8, CHR 0xB2, CHR 0xE0, CHR 0xB8, CHR 0xA2]"

definition th_packed_volume :: string where
  "th_packed_volume =
    [CHR 0xE0, CHR 0xB8, CHR 0x99, CHR 0xE0, CHR 0xB8, CHR 0xB3, CHR 0xE0, CHR 0xB9,
     CHR 0x80, CHR 0xE0, CHR 0xB8, CHR 0x82, CHR 0xE0, CHR 0xB9, CHR 0x89, CHR 0xE0,
     CHR 0xB8, CHR 0xB2, CHR ''/'', CHR 0xE0, CHR 0xB9, CHR 0x81, CHR 0xE0, CHR 0xB8,
     CHR 0x9A, CHR 0xE0, CHR 0xB9, CHR 0x88, CHR 0xE0, CHR 0xB8, CHR 0x87, CHR 0xE0,
     CHR 0xB8, CHR 0x9A, CHR 0xE0, CHR 0xB8, CHR 0xA3, CHR 0xE0, CHR 0xB8, CHR 0xA3,
     CHR 0xE0, CHR 0xB8, CHR 0x88, CHR 0xE0, CHR 0xB8, CHR 0xB8]"

definition th_registration_date :: string where
  "th_registration_date =
    [CHR 0xE0, CHR 0xB8, CHR 0xA7, CHR 0xE0, CHR 0xB8, CHR 0xB1, CHR 0xE0, CHR 0xB8,
     CHR 0x99, CHR 0xE0, CHR 0xB8, CHR 0xAD, CHR 0xE0, CHR 0xB8, CHR 0xAD, CHR 0xE0,
     CHR 0xB8, CHR 0x81, CHR 0xE0, CHR 0xB8, CHR 0x97, CHR 0xE0, CHR 0xB8, CHR 0xB0,
     CHR 0xE0, CHR 0xB9, CHR 0x80, CHR 0xE0, CHR 0xB8, CHR 0x9A, CHR 0xE0, CHR 0xB8,
     CHR 0xB5, CHR 0xE0, CHR 0xB8, CHR 0xA2, CHR 0xE0, CHR 0xB8, CHR 0x99]"

definition th_expiry_date :: string where
  "th_expiry_date =
    [CHR 0xE0, CHR 0xB8, CHR 0xA7, CHR 0xE0, CHR 0xB8, CHR 0xB1, CHR 0xE0, CHR 0xB8,
     CHR 0x99, CHR 0xE0, CHR 0xB8, CHR 0xAB, CHR 0xE0, CHR 0xB8, CHR 0xA1, CHR 0xE0,
     CHR 0xB8, CHR 0x94, CHR 0xE0, CHR 0xB8, CHR 0xAD, CHR 0xE0, CHR 0xB8, CHR 0xB2,
     CHR 0xE0, CHR 0xB8, CHR 0xA2, CHR 0xE0, CHR 0xB8, CHR 0xB8]"

definition th_license_no :: string where
  "th_license_no =
    [CHR 0xE0, CHR 0xB9, CHR 0x83, CHR 0xE0, CHR 0xB8, CHR 0x9A, CHR 0xE0, CHR 0xB8,
     CHR 0xAD, CHR 0xE0, CHR 0xB8, CHR 0x99, CHR 0xE0, CHR 0xB8, CHR 0xB8, CHR 0xE0,
     CHR 0xB8, CHR 0x8D, CHR 0xE0, CHR 0xB8, CHR 0xB2, CHR 0xE0, CHR 0xB8, CHR 0x95]"

record registration =
  company_code :: "string option"
  brand_name :: string
  common_label :: string
  registration_no :: cell
  importer :: cell
  manufacturer_source :: cell
  distributor :: cell
  packed_volume :: cell
  registration_date :: "string option"
  expiry_date :: "string option"
  license_no :: cell

text \<open>Lines 203 to 213: one row.  \<open>normalizeDate\<close> may throw, and then so does the mapper.\<close>

definition map_row :: "string option \<Rightarrow> row \<Rightarrow> js_error + registration" where
  "map_row cc r =
     (let brand = js_or (js_or (r ''brand_name'') (r th_brand_name)) (Str []);
          common = js_or (js_or (r ''common_label'') (r th_common_label)) (Str []);
          regno = js_or (js_or (r ''registration_no'') (r th_registration_no)) Null;
          imp = js_or (js_or (r ''importer'') (r th_importer)) Null;
          manu = js_or (js_or (r ''manufacturer_source'') (r th_manufacturer_source)) Null;
          dist = js_or (js_or (r ''distributor'') (r th_distributor)) Null;
          packed = js_or (js_or (r ''packed_volume'') (r th_packed_volume)) Null
      in case normalizeDate (js_or (r ''registration_date'') (r th_registration_date)) of
           Inl e \<Rightarrow> Inl e
         | Inr rdate \<Rightarrow>
             (case normalizeDate (js_or (r ''expiry_date'') (r th_expiry_date)) of
                Inl e \<Rightarrow> Inl e
              | Inr edate \<Rightarrow>
                  (let lic = js_or (js_or (r ''license_no'') (r th_license_no)) Null
                   in Inr \<lparr>company_code = cc, brand_name = trim (String_of brand),
                           common_label = trim (String_of common), registration_no = regno,
                           importer = imp, manufacturer_source = manu, distributor = dist,
                           packed_volume = packed, registration_date = rdate,
                           expiry_date = edate, license_no = lic\<rparr>)))"

text \<open>\<^verbatim>\<open>records.map(...)\<close>: the first row that throws ends the map.\<close>

fun map_rows :: "string option \<Rightarrow> row list \<Rightarrow> js_error + registration list" where
  "map_rows cc [] = Inr []"
| "map_rows cc (r # rs) =
     (case map_row cc r of
        Inl e \<Rightarrow> Inl e
      | Inr x \<Rightarrow> (case map_rows cc rs of Inl e \<Rightarrow> Inl e | Inr xs \<Rightarrow> Inr (x # xs)))"

text \<open>Line 214: the filter \<^verbatim>\<open>x.brand_name && x.common_label\<close>.\<close>

definition keeps :: "registration \<Rightarrow> bool" where
  "keeps x = (brand_name x \<noteq> [] \<and> common_label x \<noteq> [])"

definition mapped_records :: "string option \<Rightarrow> row list \<Rightarrow> js_error + registration list" where
  "mapped_records cc records =
     (case map_rows cc records of Inl e \<Rightarrow> Inl e | Inr xs \<Rightarrow> Inr (filter keeps xs))"

section \<open>The persistence layer\<close>

text \<open>
  The hosted database is outside the repository.  The handlers see it through two
  calls on the registrations table: \<^verbatim>\<open>delete().eq('company_code', v)\<close>, whose result the
  import handler ignores, and \<^verbatim>\<open>insert(chunk)\<close>, which answers with an error message or
  with none.  A backend is any pair of such operations over a state; the trace records
  every call the handler makes, an insert with its answer.
\<close>

record 's backend =
  delete_eq :: "'s \<Rightarrow> string option \<Rightarrow> 's"
  insert_rows :: "'s \<Rightarrow> registration list \<Rightarrow> string option \<times> 's"

datatype call = Delete "string option" | Insert "registration list" "string option"

fun is_Delete :: "call \<Rightarrow> bool" where
  "is_Delete (Delete v) = True"
| "is_Delete (Insert c e) = False"

text \<open>
  A reference backend, used where a claim speaks of the records left in a scope: a table
  in memory.  The delete removes the rows whose \<^verbatim>\<open>company_code\<close> equals the text of the
  filter value.  The insert number \<open>k\<close> (counted from 0) fails with message \<open>m\<close> when
  \<open>fails k = Some m\<close> and stores nothing; otherwise it appends the rows.
\<close>

record mem =
  table :: "registration list"
  inserts_seen :: nat

definition filter_text :: "string option \<Rightarrow> string" where
  "filter_text v = (case v of None \<Rightarrow> ''undefined'' | Some c \<Rightarrow> c)"

definition mem_backend :: "(nat \<Rightarrow> string option) \<Rightarrow> mem backend" where
  "mem_backend fails =
     \<lparr>delete_eq = (\<lambda>st v.
        st\<lparr>table := filter (\<lambda>x. company_code x \<noteq> Some (filter_text v)) (table st)\<rparr>),
      insert_rows = (\<lambda>st chunk.
        case fails (inserts_seen st) of
          Some m \<Rightarrow> (Some m, st\<lparr>inserts_seen := Suc (inserts_seen st)\<rparr>)
        | None \<Rightarrow> (None, st\<lparr>table := table st @ chunk,
                              inserts_seen := Suc (inserts_seen st)\<rparr>))\<rparr>"

text \<open>The records of a scope.\<close>

definition scope :: "string \<Rightarrow> mem \<Rightarrow> registration list" where
  "scope c st = filter (\<lambda>x. company_code x = Some c) (table st)"

section \<open>The import pipeline (POST /api/admin/import-csv)\<close>

record results =
  total :: nat
  success :: nat
  failed :: nat
  errors :: "string list"

definition CHUNK :: nat where
  "CHUNK = 500"

text \<open>Lines 222 to 229: the loop over the chunks, from index \<open>i\<close>.  The state of the
  backend, the results and the trace are threaded through.\<close>

function insert_chunks ::
  "'s backend \<Rightarrow> registration list \<Rightarrow> nat \<Rightarrow> 's \<times> results \<times> call list \<Rightarrow> 's \<times> results \<times> call list"
  where
  "insert_chunks sb mapped i (st, res, tr) =
     (if i < length mapped then
        (let chunk = take CHUNK (drop i mapped);
             (err, st') = insert_rows sb st chunk;
             res' = (case err of
                       Some m \<Rightarrow> res\<lparr>failed := failed res + length chunk,
                                       errors := errors res @ [m]\<rparr>
                     | None \<Rightarrow> res\<lparr>success := success res + length chunk\<rparr>)
         in insert_chunks sb mapped (i + CHUNK) (st', res', tr @ [Insert chunk err]))
      else (st, res, tr))"
  by pat_completeness auto
termination
  by (relation "measure (\<lambda>(sb, mapped, i, x). length mapped - i)") (auto simp: CHUNK_def)

declare insert_chunks.simps [simp del]

text \<open>Lines 216 to 229: the optional delete, then the loop.\<close>

definition run_import ::
  "'s backend \<Rightarrow> 's \<Rightarrow> bool \<Rightarrow> string option \<Rightarrow> registration list \<Rightarrow> 's \<times> results \<times> call list"
  where
  "run_import sb st replaceMode cc mapped =
     (let (st1, tr1) = (if replaceMode then (delete_eq sb st cc, [Delete cc]) else (st, []))
      in insert_chunks sb mapped 0
           (st1, \<lparr>total = length mapped, success = 0, failed = 0, errors = []\<rparr>, tr1))"

text \<open>The uploaded file as the handler meets it: absent, rejected by the parser with a
  message, or parsed into rows.\<close>

datatype upload = NoFile | ParseFails string | Parsed "row list"

record import_request =
  req_file :: upload
  replace_mode :: "string option"
  body_company_code :: "string option"

datatype response = Ok_results results | Error nat string

text \<open>Line 174.\<close>

definition replace_flag :: "import_request \<Rightarrow> bool" where
  "replace_flag req = (replace_mode req = Some ''1'' \<or> replace_mode req = Some ''true'')"

text \<open>The handler, lines 171 to 232.\<close>

definition import_csv :: "'s backend \<Rightarrow> 's \<Rightarrow> import_request \<Rightarrow> response \<times> 's \<times> call list" where
  "import_csv sb st req =
     (case req_file req of
        NoFile \<Rightarrow> (Error 400 ''missing file'', st, [])
      | ParseFails m \<Rightarrow> (Error 500 m, st, [])
      | Parsed records \<Rightarrow>
          (case mapped_records (body_company_code req) records of
             Inl e \<Rightarrow> (Error 500 (message e), st, [])
           | Inr mapped \<Rightarrow>
               (let (st', res, tr) =
                      run_import sb st (replace_flag req) (body_company_code req) mapped
                in (Ok_results res, st', tr))))"

section \<open>The export handler (GET /api/admin/export)\<close>

text \<open>The select on the table answers with an error message or with rows; the handler
  answers with an error or with the sheet, a list of rows of cells.\<close>

datatype export_response = Sheet "cell list list" | Export_error nat string

definition export_row :: "registration \<Rightarrow> cell list" where
  "export_row x =
     [Str (case or_str (company_code x) (Some []) of None \<Rightarrow> [] | Some c \<Rightarrow> c),
      Str (brand_name x), Str (common_label x),
      js_or (registration_no x) (Str []), js_or (importer x) (Str []),
      js_or (manufacturer_source x) (Str []), js_or (distributor x) (Str []),
      js_or (packed_volume x) (Str []),
      Str (case or_str (registration_date x) (Some []) of None \<Rightarrow> [] | Some c \<Rightarrow> c),
      Str (case or_str (expiry_date x) (Some []) of None \<Rightarrow> [] | Some c \<Rightarrow> c),
      js_or (license_no x) (Str [])]"

definition export_header :: "cell list" where
  "export_header =
     [Str ''company_code'', Str ''brand_name'', Str ''common_label'', Str ''registration_no'',
      Str ''importer'', Str ''manufacturer_source'', Str ''distributor'', Str ''packed_volume'',
      Str ''registration_date'', Str ''expiry_date'', Str ''license_no'']"

text \<open>The second component lists the scopes the select was called with.\<close>

definition export_xlsx ::
  "(string \<Rightarrow> string + registration list) \<Rightarrow> string option \<Rightarrow> export_response \<times> string list" where
  "export_xlsx select_eq qcode =
     (let code = (case or_str qcode (Some []) of None \<Rightarrow> [] | Some c \<Rightarrow> c) in
      if code = [] then (Export_error 400 ''missing code'', [])
      else (case select_eq code of
              Inl m \<Rightarrow> (Export_error 500 m, [code])
            | Inr rows \<Rightarrow> (Sheet (export_header # map export_row rows), [code])))"

section \<open>Batches and what the results should count\<close>

text \<open>
  The reference the pipeline is compared with.  \<open>batches n xs\<close> cuts a list into
  consecutive pieces of \<open>n\<close> elements, the last one possibly shorter.  \<open>send_batches\<close>
  hands a list of batches to the backend, one insert per batch, each on the state the
  previous insert left, whatever the answers are; it yields the calls with their answers
  and the final state.
\<close>

function batches :: "nat \<Rightarrow> 'a list \<Rightarrow> 'a list list" where
  "batches n xs = (if n = 0 \<or> xs = [] then [] else take n xs # batches n (drop n xs))"
  by pat_completeness auto
termination
  by (relation "measure (\<lambda>(n, xs). length xs)") auto

declare batches.simps [simp del]

fun send_batches :: "'s backend \<Rightarrow> 's \<Rightarrow> registration list list \<Rightarrow> call list \<times> 's" where
  "send_batches sb st [] = ([], st)"
| "send_batches sb st (c # cs) =
     (case insert_rows sb st c of
        (err, st1) \<Rightarrow> (case send_batches sb st1 cs of (tr, st2) \<Rightarrow> (Insert c err # tr, st2)))"

text \<open>The records a call carries, the error message it was answered with, and the rows
  and messages the results should count: the rows of the calls answered with an error,
  the rows of the other calls, and the messages in the order of the calls.\<close>

fun chunk_of :: "call \<Rightarrow> registration list" where
  "chunk_of (Delete v) = []"
| "chunk_of (Insert c e) = c"

fun failure_of :: "call \<Rightarrow> string option" where
  "failure_of (Delete v) = None"
| "failure_of (Insert c e) = e"

definition failed_rows :: "call list \<Rightarrow> nat" where
  "failed_rows tr = sum_list (map (\<lambda>c. length (chunk_of c)) (filter (\<lambda>c. failure_of c \<noteq> None) tr))"

definition stored_rows :: "call list \<Rightarrow> nat" where
  "stored_rows tr = sum_list (map (\<lambda>c. length (chunk_of c)) (filter (\<lambda>c. failure_of c = None) tr))"

definition error_messages :: "call list \<Rightarrow> string list" where
  "error_messages tr = List.map_filter failure_of tr"

section \<open>Rows under canonical and under localized column names\<close>

text \<open>
  The ten fields the mapper reads from a row, with the canonical and the localized name of
  each.  (The eleventh field of a record, \<open>company_code\<close>, has no localized name: the
  mapper takes it from the request, not from the row.)  For an assignment of values to the
  fields, \<open>canonical_row\<close> is the row that carries them under the canonical names only,
  with some cell in a \<open>company_code\<close> column, and \<open>localized_row\<close> the row that carries
  them under the localized names only.
\<close>

datatype field =
  Brand_name | Common_label | Registration_no | Importer | Manufacturer_source | Distributor
  | Packed_volume | Registration_date | Expiry_date | License_no

fun canonical_name :: "field \<Rightarrow> string" where
  "canonical_name Brand_name = ''brand_name''"
| "canonical_name Common_label = ''common_label''"
| "canonical_name Registration_no = ''registration_no''"
| "canonical_name Importer = ''importer''"
| "canonical_name Manufacturer_source = ''manufacturer_source''"
| "canonical_name Distributor = ''distributor''"
| "canonical_name Packed_volume = ''packed_volume''"
| "canonical_name Registration_date = ''registration_date''"
| "canonical_name Expiry_date = ''expiry_date''"
| "canonical_name License_no = ''license_no''"

fun localized_name :: "field \<Rightarrow> string" where
  "localized_name Brand_name = th_brand_name"
| "localized_name Common_label = th_common_label"
| "localized_name Registration_no = th_registration_no"
| "localized_name Importer = th_importer"
| "localized_name Manufacturer_source = th_manufacturer_source"
| "localized_name Distributor = th_distributor"
| "localized_name Packed_volume = th_packed_volume"
| "localized_name Registration_date = th_registration_date"
| "localized_name Expiry_date = th_expiry_date"
| "localized_name License_no = th_license_no"

definition fields :: "field list" where
  "fields = [Brand_name, Common_label, Registration_no, Importer, Manufacturer_source,
     Distributor, Packed_volume, Registration_date, Expiry_date, License_no]"

definition row_under :: "(field \<Rightarrow> string) \<Rightarrow> (field \<Rightarrow> cell) \<Rightarrow> row" where
  "row_under name vals k =
     (case find (\<lambda>f. name f = k) fields of None \<Rightarrow> Undefined | Some f \<Rightarrow> vals f)"

definition canonical_row :: "(field \<Rightarrow> cell) \<Rightarrow> cell \<Rightarrow> row" where
  "canonical_row vals cc = (row_under canonical_name vals)(''company_code'' := cc)"

definition localized_row :: "(field \<Rightarrow> cell) \<Rightarrow> row" where
  "localized_row vals = row_under localized_name vals"

text \<open>The numeric cells on which \<open>normalizeDate\<close> throws: serial day counts further than
  10^8 days from serial 25569, where the time value leaves the range of a Date.\<close>

definition out_of_range :: "cell \<Rightarrow> bool" where
  "out_of_range v = (case v of Num n \<Rightarrow> 100000000 < \<bar>n - 25569\<bar> | _ \<Rightarrow> False)"

section \<open>The two written date forms\<close>






section \<open>The calendar\<close>

text \<open>
  The proleptic Gregorian calendar, stated on its own: which years are leap years, how
  long a month is, the day after and the day before a date.  A date is a triple of year,
  month (1 to 12) and day.  \<open>days_after c v\<close> is the date reached from \<open>c\<close> by \<open>v\<close>
  steps to the next day, or by \<open>- v\<close> steps to the previous day when \<open>v\<close> is negative;
  \<open>ymd_string\<close> writes a date with a year of 0 to 9999 as \<open>YYYY-MM-DD\<close>.
\<close>

definition leap_year :: "int \<Rightarrow> bool" where
  "leap_year y = ((y mod 4 = 0 \<and> y mod 100 \<noteq> 0) \<or> y mod 400 = 0)"

definition days_in_month :: "int \<Rightarrow> int \<Rightarrow> int" where
  "days_in_month y m =
     (if m = 2 then (if leap_year y then 29 else 28)
      else if m = 4 \<or> m = 6 \<or> m = 9 \<or> m = 11 then 30 else 31)"

fun next_day :: "int \<times> int \<times> int \<Rightarrow> int \<times> int \<times> int" where
  "next_day (y, m, d) =
     (if d < days_in_month y m then (y, m, d + 1)
      else if m < 12 then (y, m + 1, 1)
      else (y + 1, 1, 1))"

fun prev_day :: "int \<times> int \<times> int \<Rightarrow> int \<times> int \<times> int" where
  "prev_day (y, m, d) =
     (if 1 < d then (y, m, d - 1)
      else if 1 < m then (y, m - 1, days_in_month y (m - 1))
      else (y - 1, 12, 31))"

definition days_after :: "int \<times> int \<times> int \<Rightarrow> int \<Rightarrow> int \<times> int \<times> int" where
  "days_after c v = (if 0 \<le> v then (next_day ^^ nat v) c else (prev_day ^^ nat (- v)) c)"

definition ymd_string :: "int \<times> int \<times> int \<Rightarrow> string" where
  "ymd_string c =
     (case c of (y, m, d) \<Rightarrow>
        [digit_char (nat y div 1000), digit_char (nat y div 100 mod 10),
         digit_char (nat y div 10 mod 10), digit_char (nat y mod 10), CHR ''-'',
         digit_char (nat m div 10), digit_char (nat m mod 10), CHR ''-'',
         digit_char (nat d div 10), digit_char (nat d mod 10)])"

text \<open>For the proofs: the dates that exist, and the number of a date counted in days from
  1970-01-01.\<close>

definition valid_date :: "int \<times> int \<times> int \<Rightarrow> bool" where
  "valid_date c = (case c of (y, m, d) \<Rightarrow> 1 \<le> m \<and> m \<le> 12 \<and> 1 \<le> d \<and> d \<le> days_in_month y m)"

definition days_before_month :: "int \<Rightarrow> int \<Rightarrow> int" where
  "days_before_month y m =
     (if m \<le> 1 then 0 else if m = 2 then 31
      else (if leap_year y then 1 else 0) +
        (if m = 3 then 59 else if m = 4 then 90 else if m = 5 then 120 else if m = 6 then 151
         else if m = 7 then 181 else if m = 8 then 212 else if m = 9 then 243
         else if m = 10 then 273 else if m = 11 then 304 else 334))"

definition day_number :: "int \<times> int \<times> int \<Rightarrow> int" where
  "day_number c = (case c of (y, m, d) \<Rightarrow> DayFromYear y + days_before_month y m + d - 1)"

section \<open>Concrete inputs\<close>

text \<open>Configurations, users, an identity service and requests used to run the
  definitions on examples.\<close>

definition cfg0 :: config where
  "cfg0 = \<lparr>ADMIN_API_KEY = Some ''secret'', ADMIN_EMAILS = [''boss@example.com'']\<rparr>"

definition cfg_nokey :: config where
  "cfg_nokey = \<lparr>ADMIN_API_KEY = None, ADMIN_EMAILS = []\<rparr>"

definition user_admin :: user where
  "user_admin = \<lparr>role = Str_claim ''Admin'', email = Some ''a@example.com''\<rparr>"

definition user_boss :: user where
  "user_boss = \<lparr>role = No_claim, email = Some ''boss@example.com''\<rparr>"

definition user_guest :: user where
  "user_guest = \<lparr>role = Str_claim ''viewer'', email = Some ''guest@example.com''\<rparr>"

definition idp0 :: "string \<Rightarrow> getUser_result" where
  "idp0 tok =
     (if tok = ''t-admin'' then Returned False (Some user_admin)
      else if tok = ''t-boss'' then Returned False (Some user_boss)
      else if tok = ''t-guest'' then Returned False (Some user_guest)
      else if tok = ''t-down'' then Threw
      else Returned True None)"

definition req_with ::
  "string option \<Rightarrow> string option \<Rightarrow> string option \<Rightarrow> string option \<Rightarrow> auth_request" where
  "req_with x q l a =
     \<lparr>x_admin_key = x, query_admin_key = q, x_legacy_admin_key = l, authorization = a\<rparr>"

definition row0 :: row where
  "row0 = (\<lambda>k. Undefined)(''brand_name'' := Str ''Alpha'', ''common_label'' := Str ''Salt'',
      ''registration_date'' := Str ''5/3/24'')"

definition row_nobrand :: row where
  "row_nobrand = (\<lambda>k. Undefined)(''common_label'' := Str ''Salt'', th_brand_name := Str ''   '')"

definition reg0 :: registration where
  "reg0 = \<lparr>company_code = Some ''ACME'', brand_name = ''Old'', common_label = ''Salt'',
      registration_no = Null, importer = Null, manufacturer_source = Null, distributor = Null,
      packed_volume = Null, registration_date = None, expiry_date = None, license_no = Null\<rparr>"

definition mem0 :: mem where
  "mem0 = \<lparr>table = [reg0, reg0\<lparr>company_code := Some ''OTHER''\<rparr>], inserts_seen = 0\<rparr>"

definition row_nocommon :: row where
  "row_nocommon = (\<lambda>k. Undefined)(''brand_name'' := Str ''Alpha'', ''importer'' := Str ''X'')"

definition rec0 :: registration where
  "rec0 = \<lparr>company_code = Some ''ACME'', brand_name = ''Alpha'', common_label = ''Salt'',
      registration_no = Null, importer = Null, manufacturer_source = Null, distributor = Null,
      packed_volume = Null, registration_date = Some ''2024-03-05'', expiry_date = None,
      license_no = Null\<rparr>"

definition fails_second :: "nat \<Rightarrow> string option" where
  "fails_second k = (if k = 1 then Some ''timeout'' else None)"

definition fails_always :: "nat \<Rightarrow> string option" where
  "fails_always k = Some ''unavailable''"

definition fails_never :: "nat \<Rightarrow> string option" where
  "fails_never k = None"

definition import_req :: "row list \<Rightarrow> string option \<Rightarrow> string option \<Rightarrow> import_request" where
  "import_req rows rm cc = \<lparr>req_file = Parsed rows, replace_mode = rm, body_company_code = cc\<rparr>"

definition vals0 :: "field \<Rightarrow> cell" where
  "vals0 f = (case f of Brand_name \<Rightarrow> Str '' Alpha '' | Common_label \<Rightarrow> Str ''Salt''
      | Registration_no \<Rightarrow> Num 0 | Registration_date \<Rightarrow> Str ''5/3/24''
      | Expiry_date \<Rightarrow> Num 45000 | Importer \<Rightarrow> Str [] | _ \<Rightarrow> Undefined)"

definition row_far_date :: row where
  "row_far_date = (\<lambda>k. Undefined)(''common_label'' := Str ''Salt'',
      ''registration_date'' := Num 1000000000)"

definition rec_vals0 :: registration where
  "rec_vals0 = \<lparr>company_code = Some ''ACME'', brand_name = ''Alpha'', common_label = ''Salt'',
      registration_no = Null, importer = Null, manufacturer_source = Null, distributor = Null,
      packed_volume = Null, registration_date = Some ''2024-03-05'',
      expiry_date = Some ''2023-03-15'', license_no = Null\<rparr>"


text \<open>A user whose role claim is the array \<^verbatim>\<open>['admin']\<close> and whose email is on the
  allowlist of \<open>cfg0\<close>, and an identity service that resolves the token \<open>t-roles\<close> to this
  user.\<close>

definition user_roles :: user where
  "user_roles = \<lparr>role = Obj_claim, email = Some ''boss@example.com''\<rparr>"

definition idp_roles :: "string \<Rightarrow> getUser_result" where
  "idp_roles tok = (if tok = ''t-roles'' then Returned False (Some user_roles) else idp0 tok)"

text \<open>An import request with the replace flag and no file.\<close>

definition req_nofile :: import_request where
  "req_nofile = \<lparr>req_file = NoFile, replace_mode = Some ''1'', body_company_code = Some ''ACME''\<rparr>"

text \<open>The row \<open>row_far_date\<close> with an invalid Date object in place of the number.\<close>

definition row_invalid_date :: row where
  "row_invalid_date = (\<lambda>k. Undefined)(''common_label'' := Str ''Salt'',
      ''registration_date'' := InvalidDate)"

text \<open>A row whose brand name is a no-break space (U+00A0) and an ideographic space
  (U+3000).\<close>

definition row_nbsp_brand :: row where
  "row_nbsp_brand = (\<lambda>k. Undefined)(''common_label'' := Str ''Salt'',
      ''brand_name'' := Str [CHR 0xC2, CHR 0xA0, CHR 0xE3, CHR 0x80, CHR 0x80])"
section \<open>Properties of the auth gate\<close>

lemma lower_admin: "map lower_char ''admin'' = ''admin''"
  by code_simp

lemma role_is_admin_text:
  "role_is_admin (or_claim (Str_claim r) (Str_claim [])) = Inr (map lower_char r = ''admin'')"
  by (auto simp: role_is_admin_def or_claim_def toLowerCase_def)

lemma role_is_admin_falsy:
  "\<not> truthy_claim c \<Longrightarrow> role_is_admin (or_claim c (Str_claim [])) = Inr False"
  by (simp add: role_is_admin_def or_claim_def)

lemma role_is_admin_throws:
  "truthy_claim c \<Longrightarrow> \<forall>r. c \<noteq> Str_claim r \<Longrightarrow>
     role_is_admin (or_claim c (Str_claim [])) = Inl TypeError"
  by (cases c) (simp_all add: role_is_admin_def or_claim_def)

text \<open>
  The gate on the users whose role claim is a string or falsy.  Take a request that the
  static key does not admit.  If it carries a bearer-style authorization header and the
  identity service answers with an error or without a user, the gate rejects with status
  401 and error \<open>invalid token\<close>.  If the service answers with such a user and no error,
  the gate admits exactly when the role claim equals \<open>admin\<close> after lower-casing, or the
  user's email is in the configured allowlist; otherwise it rejects with status 403 and
  error \<open>forbidden\<close>.  If the request carries no bearer-style header, the gate rejects with
  status 401 and error \<open>missing credentials\<close>.
\<close>

lemma adminAuth_text_role:
  assumes "\<not> static_key_admits cfg req"
  shows "(\<forall>tok err u. bearer_token req = Some tok \<and> getUser tok = Returned err u \<and>
                      (err \<or> u = None)
            \<longrightarrow> adminAuth cfg getUser req = (Reject 401 ''invalid token'', [tok]))
       \<and> (\<forall>tok usr. bearer_token req = Some tok \<and> getUser tok = Returned False (Some usr)
                       \<and> (\<not> truthy_claim (role usr) \<or> (\<exists>r. role usr = Str_claim r))
            \<longrightarrow> adminAuth cfg getUser req =
                 (if (\<exists>r. role usr = Str_claim r \<and> map lower_char r = ''admin'')
                     \<or> (\<exists>e. email usr = Some e \<and> e \<in> set (ADMIN_EMAILS cfg))
                  then (Next (Some usr), [tok]) else (Reject 403 ''forbidden'', [tok])))
       \<and> (bearer_token req = None
            \<longrightarrow> adminAuth cfg getUser req = (Reject 401 ''missing credentials'', []))"
proof -
  have 1: "adminAuth cfg getUser req = (Reject 401 ''invalid token'', [tok])"
    if "bearer_token req = Some tok" "getUser tok = Returned err u" "err \<or> u = None"
    for tok err u
    using assms that by (auto simp: adminAuth_def split: option.splits)
  have 2: "adminAuth cfg getUser req =
       (if (\<exists>r. role usr = Str_claim r \<and> map lower_char r = ''admin'')
           \<or> (\<exists>e. email usr = Some e \<and> e \<in> set (ADMIN_EMAILS cfg))
        then (Next (Some usr), [tok]) else (Reject 403 ''forbidden'', [tok]))"
    if b: "bearer_token req = Some tok" and g: "getUser tok = Returned False (Some usr)"
      and r: "\<not> truthy_claim (role usr) \<or> (\<exists>r. role usr = Str_claim r)"
    for tok usr
  proof -
    have a: "adminAuth cfg getUser req =
        (case authorize_user cfg usr of Inl e \<Rightarrow> (Reject 500 ''auth error'', [tok])
         | Inr out \<Rightarrow> (out, [tok]))"
      using assms b g by (simp add: adminAuth_def)
    from r show ?thesis
    proof
      assume f: "\<not> truthy_claim (role usr)"
      then have "\<forall>r. role usr \<noteq> Str_claim r \<or> map lower_char r \<noteq> ''admin''"
        by auto
      then show ?thesis
        unfolding a authorize_user_def role_is_admin_falsy [OF f]
        by (auto split: option.splits)
    next
      assume "\<exists>r. role usr = Str_claim r"
      then obtain r where r: "role usr = Str_claim r" ..
      show ?thesis
        unfolding a authorize_user_def r role_is_admin_text
        by (auto split: option.splits)
    qed
  qed
  have 3: "adminAuth cfg getUser req = (Reject 401 ''missing credentials'', [])"
    if "bearer_token req = None"
    using assms that by (simp add: adminAuth_def)
  from 1 2 3 show ?thesis by blast
qed

text \<open>A resolved user whose role claim is truthy and no string is answered with status
  500, whatever the email.\<close>

lemma adminAuth_other_role:
  assumes "\<not> static_key_admits cfg req" and "bearer_token req = Some tok"
    and "getUser tok = Returned False (Some usr)"
    and "truthy_claim (role usr)" and "\<forall>r. role usr \<noteq> Str_claim r"
  shows "adminAuth cfg getUser req = (Reject 500 ''auth error'', [tok])"
  using assms(1-3)
  by (simp add: adminAuth_def authorize_user_def role_is_admin_throws [OF assms(4,5)])

text \<open>
  Claim C1 fails in the code where the resolved user's role claim is truthy and not a
  string.  Line 43 guards the call \<^verbatim>\<open>role.toLowerCase()\<close> with \<^verbatim>\<open>role &&\<close> only, so the
  call throws on a number, \<^verbatim>\<open>true\<close>, an array or an object, line 44 is never reached, and
  the \<^verbatim>\<open>catch\<close> answers with status 500 and \<open>auth error\<close>.  Here the token is valid, the
  user's role claim is the array \<^verbatim>\<open>['admin']\<close> and the user's email is on the allowlist:
  the claim admits the request, the gate answers 500.  The same email with no role claim
  is admitted.
\<close>

theorem role_claim_not_a_string_is_auth_error:
  "\<not> static_key_admits cfg0 (req_with None None None (Some ''Bearer t-roles''))
   \<and> bearer_token (req_with None None None (Some ''Bearer t-roles'')) = Some ''t-roles''
   \<and> idp_roles ''t-roles'' = Returned False (Some user_roles)
   \<and> role user_roles = Obj_claim
   \<and> email user_roles = Some ''boss@example.com''
   \<and> ''boss@example.com'' \<in> set (ADMIN_EMAILS cfg0)
   \<and> adminAuth cfg0 idp_roles (req_with None None None (Some ''Bearer t-roles''))
       = (Reject 500 ''auth error'', [''t-roles''])
   \<and> email user_boss = Some ''boss@example.com''
   \<and> adminAuth cfg0 idp_roles (req_with None None None (Some ''Bearer t-boss''))
       = (Next (Some user_boss), [''t-boss''])"
  by code_simp

text \<open>
  Claim C2, as stated, fails: the gate reads one key, the first non-empty value among
  the \<open>x-admin-key\<close> header, the \<open>admin_key\<close> query parameter and the
  \<open>x-legacy-admin-key\<close> header, in this order.  A request whose \<open>x-legacy-admin-key\<close>
  header equals the configured key is not admitted by it when \<open>x-admin-key\<close> carries
  another value.
\<close>

theorem matching_key_behind_other_key_counterexample:
  "x_legacy_admin_key (req_with (Some ''stale'') None (Some ''secret'') None) = ADMIN_API_KEY cfg0
   \<and> adminAuth cfg0 idp0 (req_with (Some ''stale'') None (Some ''secret'') None)
       = (Reject 401 ''missing credentials'', [])"
  by code_simp

text \<open>
  Claim C2, amended.  When a static admin key is configured and the key the gate reads
  (the \<open>x-admin-key\<close> header if non-empty, else the \<open>admin_key\<close> query parameter if
  non-empty, else the \<open>x-legacy-admin-key\<close> header) equals it, the gate admits at once
  and sends nothing to the identity service, whatever the authorization header holds.
\<close>

theorem first_presented_key_admits:
  assumes "ADMIN_API_KEY cfg = Some k" and "k \<noteq> []"
    and "x_admin_key req = Some k
         \<or> (\<not> truthy_str (x_admin_key req) \<and> query_admin_key req = Some k)
         \<or> (\<not> truthy_str (x_admin_key req) \<and> \<not> truthy_str (query_admin_key req)
             \<and> x_legacy_admin_key req = Some k)"
  shows "adminAuth cfg getUser req = (Next None, [])"
  using assms
  by (auto simp: adminAuth_def static_key_admits_def presented_key_def or_str_def truthy_str_def)

theorem first_presented_key_admits_witness:
  "adminAuth cfg0 idp0 (req_with None (Some []) (Some ''secret'') (Some ''Bearer t-down''))
     = (Next None, [])
   \<and> adminAuth cfg0 idp0
       (req_with (Some ''secret'') (Some ''other'') None (Some ''Bearer t-guest''))
     = (Next None, [])
   \<and> adminAuth cfg0 idp0 (req_with None (Some ''secret'') (Some ''other'') None)
     = (Next None, [])"
proof -
  have k: "ADMIN_API_KEY cfg0 = Some ''secret''" "''secret'' \<noteq> []"
    by (simp_all add: cfg0_def)
  show ?thesis
    using first_presented_key_admits
        [OF k, of "req_with None (Some []) (Some ''secret'') (Some ''Bearer t-down'')" idp0]
      first_presented_key_admits
        [OF k, of "req_with (Some ''secret'') (Some ''other'') None (Some ''Bearer t-guest'')" idp0]
      first_presented_key_admits
        [OF k, of "req_with None (Some ''secret'') (Some ''other'') None" idp0]
    by (simp add: req_with_def truthy_str_def)
qed

text \<open>
  Claim C9.  Take a request that presents a key (the key the gate reads is non-empty)
  which is not the configured static admin key, be it that the two differ or that no
  key is configured.  Without a bearer-style authorization header the gate rejects it with
  status 401 and error \<open>missing credentials\<close>, the same answer as for no credentials at
  all; and with or without such a header the request is never admitted on its key.
\<close>

theorem wrong_static_key_is_missing_credentials:
  assumes "truthy_str (presented_key req)"
    and "presented_key req \<noteq> ADMIN_API_KEY cfg"
  shows "(bearer_token req = None
            \<longrightarrow> adminAuth cfg getUser req = (Reject 401 ''missing credentials'', []))
         \<and> fst (adminAuth cfg getUser req) \<noteq> Next None"
  using assms
  by (auto simp: adminAuth_def static_key_admits_def authorize_user_def
           split: option.splits getUser_result.splits sum.splits)

theorem wrong_static_key_is_missing_credentials_witness:
  "adminAuth cfg0 idp0 (req_with (Some ''guess'') None None None)
     = (Reject 401 ''missing credentials'', [])
   \<and> adminAuth cfg_nokey idp0 (req_with None (Some ''secret'') None (Some ''Basic abc''))
     = (Reject 401 ''missing credentials'', [])"
proof -
  have p: "truthy_str (presented_key (req_with (Some ''guess'') None None None))"
      "presented_key (req_with (Some ''guess'') None None None) \<noteq> ADMIN_API_KEY cfg0"
      "truthy_str (presented_key (req_with None (Some ''secret'') None (Some ''Basic abc'')))"
      "presented_key (req_with None (Some ''secret'') None (Some ''Basic abc''))
         \<noteq> ADMIN_API_KEY cfg_nokey"
    by (simp_all add: presented_key_def or_str_def truthy_str_def req_with_def cfg0_def
          cfg_nokey_def)
  have b: "bearer_token (req_with (Some ''guess'') None None None) = None"
      "bearer_token (req_with None (Some ''secret'') None (Some ''Basic abc'')) = None"
    by code_simp+
  show ?thesis
    using wrong_static_key_is_missing_credentials [OF p(1) p(2), of idp0]
      wrong_static_key_is_missing_credentials [OF p(3) p(4), of idp0] b
    by simp
qed

section \<open>Properties of the date normalizer\<close>

subsection \<open>Where the normalizer throws\<close>

lemma abs_ms_days:
  fixes x :: int
  shows "(\<bar>x * 86400 * 1000\<bar> \<le> 8640000000000000) = (\<bar>x\<bar> \<le> 100000000)"
proof -
  have e: "\<bar>x * 86400 * 1000\<bar> = \<bar>x\<bar> * 86400000"
    by (simp add: abs_mult)
  have "(\<bar>x\<bar> * 86400000 \<le> 100000000 * 86400000) = (\<bar>x\<bar> \<le> 100000000)"
    by (simp only: mult_le_cancel_right) simp
  then show ?thesis
    unfolding e by simp
qed

lemma valid_time_days:
  "valid_time ((n - 25569) * 86400 * 1000) = (\<bar>n - 25569\<bar> \<le> 100000000)"
  unfolding valid_time_def by (rule abs_ms_days)

lemma normalizeDate_Num:
  "normalizeDate (Num n) =
     (if n = 0 then Inr None
      else if \<bar>n - 25569\<bar> \<le> 100000000
           then Inr (Some (take 10 (toISOString ((n - 25569) * 86400 * 1000))))
           else Inl RangeError)"
  unfolding normalizeDate_def Let_def valid_time_days by simp

lemma normalizeDate_throws:
  "out_of_range v \<Longrightarrow> normalizeDate v = Inl RangeError"
  by (cases v) (auto simp: out_of_range_def normalizeDate_Num)

lemma normalizeDate_returns:
  "\<not> out_of_range v \<Longrightarrow> \<exists>d. normalizeDate v = Inr d"
proof (cases v)
  case (Num n)
  assume "\<not> out_of_range v"
  with Num show ?thesis
    by (simp add: out_of_range_def normalizeDate_Num)
qed (simp_all add: normalizeDate_def Let_def split: option.splits prod.splits)

subsection \<open>Serial day counts\<close>

lemma DaysInYear_leap: "DaysInYear y = (if leap_year y then 366 else 365)"
  unfolding DaysInYear_def leap_year_def by presburger

lemma div_int_succ:
  fixes x k :: int
  assumes "0 < k"
  shows "(x + 1) div k = x div k + (if (x + 1) mod k = 0 then 1 else 0)"
proof (cases "x mod k + 1 < k")
  case True
  have e: "x + 1 = k * (x div k) + (x mod k + 1)" by simp
  have r: "0 \<le> x mod k + 1" using assms by (simp add: add_nonneg_nonneg)
  have "(x + 1) div k = x div k"
    by (rule int_div_pos_eq [OF e r True])
  moreover have "(x + 1) mod k = x mod k + 1"
    by (rule int_mod_pos_eq [OF e r True])
  moreover have "0 < x mod k + 1" using assms by (simp add: add_nonneg_pos)
  ultimately show ?thesis by simp
next
  case False
  moreover have "x mod k < k" using assms by simp
  ultimately have m: "x mod k + 1 = k" by simp
  have "x + 1 = k * (x div k) + (x mod k + 1)" by simp
  then have e: "x + 1 = k * (x div k + 1) + 0"
    unfolding m by (simp add: algebra_simps)
  have "(x + 1) div k = x div k + 1"
    by (rule int_div_pos_eq [OF e]) (use assms in simp_all)
  moreover have "(x + 1) mod k = 0"
    by (rule int_mod_pos_eq [OF e]) (use assms in simp_all)
  ultimately show ?thesis by simp
qed

lemma mod_shift:
  fixes y :: int
  shows "(y - 1968) mod 4 = y mod 4" "(y - 1900) mod 100 = y mod 100"
    "(y - 1600) mod 400 = y mod 400"
  using mod_mult_self1 [of y "- 492" 4] mod_mult_self1 [of y "- 19" 100]
    mod_mult_self1 [of y "- 4" 400]
  by simp_all

lemma mod_400_100_4:
  fixes y :: int
  shows "y mod 400 = 0 \<Longrightarrow> y mod 100 = 0" "y mod 100 = 0 \<Longrightarrow> y mod 4 = 0"
proof -
  have a: "(100::int) dvd 400" "(4::int) dvd 100" by simp_all
  show "y mod 400 = 0 \<Longrightarrow> y mod 100 = 0"
    using dvd_trans [OF a(1), of y] by (simp add: mod_eq_0_iff_dvd)
  show "y mod 100 = 0 \<Longrightarrow> y mod 4 = 0"
    using dvd_trans [OF a(2), of y] by (simp add: mod_eq_0_iff_dvd)
qed

lemma DayFromYear_Suc: "DayFromYear (y + 1) = DayFromYear y + DaysInYear y"
proof -
  have a: "(y + 1 - 1969) div 4 = (y - 1969) div 4 + (if y mod 4 = 0 then 1 else 0)"
    using div_int_succ [of 4 "y - 1969"] mod_shift(1) [of y] by (simp add: algebra_simps)
  have b: "(y + 1 - 1901) div 100 = (y - 1901) div 100 + (if y mod 100 = 0 then 1 else 0)"
    using div_int_succ [of 100 "y - 1901"] mod_shift(2) [of y] by (simp add: algebra_simps)
  have c: "(y + 1 - 1601) div 400 = (y - 1601) div 400 + (if y mod 400 = 0 then 1 else 0)"
    using div_int_succ [of 400 "y - 1601"] mod_shift(3) [of y] by (simp add: algebra_simps)
  show ?thesis
    unfolding DayFromYear_def DaysInYear_def a b c
    using mod_400_100_4 [of y] by auto
qed


lemma div_int_bounds:
  fixes x k :: int
  assumes "0 < k"
  shows "k * (x div k) \<le> x" "x < k * (x div k) + k"
proof -
  have e: "x = k * (x div k) + x mod k" by simp
  have "0 \<le> x mod k" "x mod k < k" using assms by simp_all
  with e show "k * (x div k) \<le> x" "x < k * (x div k) + k" by linarith+
qed

lemma DayFromYear_bounds:
  "146097 * (y - 1970) - 506 \<le> 400 * DayFromYear y"
  "400 * DayFromYear y \<le> 146097 * (y - 1970) + 589"
proof -
  define a where "a = (y - 1969) div 4"
  define b where "b = (y - 1901) div 100"
  define c where "c = (y - 1601) div 400"
  have ab: "4 * a \<le> y - 1969" "y - 1969 < 4 * a + 4"
    unfolding a_def using div_int_bounds [of 4 "y - 1969"] by simp_all
  have bb: "100 * b \<le> y - 1901" "y - 1901 < 100 * b + 100"
    unfolding b_def using div_int_bounds [of 100 "y - 1901"] by simp_all
  have cb: "400 * c \<le> y - 1601" "y - 1601 < 400 * c + 400"
    unfolding c_def using div_int_bounds [of 400 "y - 1601"] by simp_all
  have d: "400 * DayFromYear y = 146000 * y - 287620000 + 400 * a - 400 * b + 400 * c"
    unfolding DayFromYear_def a_def b_def c_def by simp
  have a1: "100 * y - 197200 \<le> 400 * a" "400 * a \<le> 100 * y - 196900"
    using ab by simp_all
  have b1: "4 * y - 8000 \<le> 400 * b" "400 * b \<le> 4 * y - 7604"
    using bb by simp_all
  have c1: "y - 2000 \<le> 400 * c" "400 * c \<le> y - 1601"
    using cb by simp_all
  show "146097 * (y - 1970) - 506 \<le> 400 * DayFromYear y"
    unfolding d using a1(1) b1(2) c1(1) by simp
  show "400 * DayFromYear y \<le> 146097 * (y - 1970) + 589"
    unfolding d using a1(2) b1(1) c1(2) by simp
qed

lemma DaysInYear_pos: "365 \<le> DaysInYear y" "DaysInYear y \<le> 366"
  by (simp_all add: DaysInYear_def)

lemma DayFromYear_mono: "y \<le> y' \<Longrightarrow> DayFromYear y \<le> DayFromYear y'"
proof (induction y' rule: int_ge_induct)
  case base
  show ?case by simp
next
  case (step i)
  then show ?case
    using DayFromYear_Suc [of i] DaysInYear_pos(1) [of i] by linarith
qed

lemma YearFromDay_range:
  "DayFromYear (YearFromDay n) \<le> n \<and> n < DayFromYear (YearFromDay n + 1)"
proof -
  define q where "q = (400 * n) div 146097"
  have qb: "146097 * q \<le> 400 * n" "400 * n < 146097 * q + 146097"
    unfolding q_def using div_int_bounds [of 146097 "400 * n"] by simp_all
  have "400 * DayFromYear (1970 + q - 1) \<le> 146097 * q - 145508"
    using DayFromYear_bounds(2) [of "1970 + q - 1"] by simp
  with qb(1) have lo: "DayFromYear (1970 + q - 1) \<le> n"
    by simp
  have "146097 * q + 291688 \<le> 400 * DayFromYear (1970 + q + 1 + 1)"
    using DayFromYear_bounds(1) [of "1970 + q + 1 + 1"] by simp
  with qb(2) have hi: "n < DayFromYear (1970 + q + 1 + 1)"
    by simp
  have y: "YearFromDay n =
      (if DayFromYear (1970 + q + 1) \<le> n then 1970 + q + 1
       else if DayFromYear (1970 + q) \<le> n then 1970 + q else 1970 + q - 1)"
    unfolding YearFromDay_def q_def Let_def ..
  show ?thesis
    unfolding y using lo hi by auto
qed

lemma YearFromDay_unique:
  assumes "DayFromYear y \<le> n" and "n < DayFromYear (y + 1)"
  shows "YearFromDay n = y"
proof (rule ccontr)
  assume ne: "YearFromDay n \<noteq> y"
  let ?z = "YearFromDay n"
  from YearFromDay_range [of n] have r: "DayFromYear ?z \<le> n" "n < DayFromYear (?z + 1)"
    by simp_all
  from ne consider "?z + 1 \<le> y" | "y + 1 \<le> ?z" by linarith
  then show False
  proof cases
    case 1
    from DayFromYear_mono [OF 1] r(2) assms(1) show False by linarith
  next
    case 2
    from DayFromYear_mono [OF 2] r(1) assms(2) show False by linarith
  qed
qed


lemma month_cases:
  fixes m :: int
  assumes "1 \<le> m" "m \<le> 12"
  shows "m = 1 \<or> m = 2 \<or> m = 3 \<or> m = 4 \<or> m = 5 \<or> m = 6 \<or> m = 7 \<or> m = 8 \<or> m = 9
     \<or> m = 10 \<or> m = 11 \<or> m = 12"
  using assms by presburger

lemma day_within_year:
  assumes "valid_date (y, m, d)"
  shows "0 \<le> days_before_month y m + d - 1"
    and "days_before_month y m + d - 1 < DaysInYear y"
proof -
  from assms have v: "1 \<le> m" "m \<le> 12" "1 \<le> d" "d \<le> days_in_month y m"
    by (simp_all add: valid_date_def)
  from month_cases [OF v(1,2)] v(3,4)
  show "0 \<le> days_before_month y m + d - 1"
    by (elim disjE; simp add: days_before_month_def split: if_splits)
  from month_cases [OF v(1,2)] v(3,4)
  show "days_before_month y m + d - 1 < DaysInYear y"
    by (elim disjE; simp add: days_before_month_def days_in_month_def DaysInYear_leap split: if_splits)
qed

lemma Day_of_days: "Day (n * msPerDay) = n" "TimeWithinDay (n * msPerDay) = 0"
  by (simp_all add: Day_def TimeWithinDay_def msPerDay_def)

lemma civil_of_day_number:
  assumes "valid_date (y, m, d)"
  defines "t \<equiv> day_number (y, m, d) * msPerDay"
  shows "YearFromTime t = y" and "MonthFromTime t = m - 1" and "DateFromTime t = d"
proof -
  from assms(1) have v: "1 \<le> m" "m \<le> 12" "1 \<le> d" "d \<le> days_in_month y m"
    by (simp_all add: valid_date_def)
  let ?k = "days_before_month y m + d - 1"
  have n: "day_number (y, m, d) = DayFromYear y + ?k"
    by (simp add: day_number_def)
  have "DayFromYear y \<le> DayFromYear y + ?k" "DayFromYear y + ?k < DayFromYear (y + 1)"
    using day_within_year [OF assms(1)] unfolding DayFromYear_Suc by simp_all
  then have "YearFromDay (DayFromYear y + ?k) = y"
    by (rule YearFromDay_unique)
  then show yr: "YearFromTime t = y"
    unfolding t_def YearFromTime_def Day_of_days n .
  have dw: "DayWithinYear t = ?k"
    unfolding DayWithinYear_def yr unfolding t_def Day_of_days n by simp
  have lp: "InLeapYear t = (if leap_year y then 1 else 0)"
    by (simp add: InLeapYear_def yr DaysInYear_leap)
  from month_cases [OF v(1,2)] v(3,4)
  show mo: "MonthFromTime t = m - 1"
    unfolding MonthFromTime_def dw lp Let_def
    by (elim disjE; simp add: days_before_month_def days_in_month_def split: if_splits)
  from month_cases [OF v(1,2)] v(3,4)
  show "DateFromTime t = d"
    unfolding DateFromTime_def mo dw lp Let_def
    by (elim disjE; simp add: days_before_month_def split: if_splits)
qed


lemma days_before_next_month:
  assumes "1 \<le> m" "m < 12"
  shows "days_before_month y (m + 1) = days_before_month y m + days_in_month y m"
proof -
  from assms have "m \<le> 12" by simp
  from month_cases [OF assms(1) this] assms(2) show ?thesis
    by (elim disjE; simp add: days_before_month_def days_in_month_def)
qed

lemma days_in_month_range: "28 \<le> days_in_month y m" "days_in_month y m \<le> 31"
  by (simp_all add: days_in_month_def)

lemma next_day_step:
  assumes "valid_date c"
  shows "valid_date (next_day c) \<and> day_number (next_day c) = day_number c + 1"
proof -
  obtain y m d where c: "c = (y, m, d)" by (cases c)
  from assms have v: "1 \<le> m" "m \<le> 12" "1 \<le> d" "d \<le> days_in_month y m"
    by (simp_all add: valid_date_def c)
  consider "d < days_in_month y m" | "d = days_in_month y m" "m < 12"
    | "d = days_in_month y m" "m = 12"
    using v(2,4) by linarith
  then show ?thesis
  proof cases
    case 1
    with v show ?thesis by (simp add: c valid_date_def day_number_def)
  next
    case 2
    with v days_in_month_range(1) [of y "m + 1"] days_before_next_month [OF v(1) 2(2), of y]
    show ?thesis by (simp add: c valid_date_def day_number_def)
  next
    case 3
    then have d: "d = 31" by (simp add: days_in_month_def)
    show ?thesis
      using DayFromYear_Suc [of y]
      by (simp add: c 3 d valid_date_def day_number_def days_in_month_def
            days_before_month_def DaysInYear_leap)
  qed
qed

lemma prev_day_step:
  assumes "valid_date c"
  shows "valid_date (prev_day c) \<and> day_number (prev_day c) = day_number c - 1"
proof -
  obtain y m d where c: "c = (y, m, d)" by (cases c)
  from assms have v: "1 \<le> m" "m \<le> 12" "1 \<le> d" "d \<le> days_in_month y m"
    by (simp_all add: valid_date_def c)
  consider "1 < d" | "d = 1" "1 < m" | "d = 1" "m = 1"
    using v(1,3) by linarith
  then show ?thesis
  proof cases
    case 1
    with v show ?thesis by (simp add: c valid_date_def day_number_def)
  next
    case 2
    then have m: "1 \<le> m - 1" "m - 1 < 12" using v(2) by simp_all
    from days_before_next_month [OF m, of y] 2 v days_in_month_range(1) [of y "m - 1"]
    show ?thesis by (simp add: c valid_date_def day_number_def)
  next
    case 3
    show ?thesis
      using DayFromYear_Suc [of "y - 1"]
      by (simp add: c 3 valid_date_def day_number_def days_in_month_def
            days_before_month_def DaysInYear_leap)
  qed
qed

lemma next_days:
  "valid_date c \<Longrightarrow>
     valid_date ((next_day ^^ k) c) \<and> day_number ((next_day ^^ k) c) = day_number c + int k"
proof (induction k)
  case 0
  then show ?case by simp
next
  case (Suc k)
  from next_day_step [of "(next_day ^^ k) c"] Suc show ?case by simp
qed

lemma prev_days:
  "valid_date c \<Longrightarrow>
     valid_date ((prev_day ^^ k) c) \<and> day_number ((prev_day ^^ k) c) = day_number c - int k"
proof (induction k)
  case 0
  then show ?case by simp
next
  case (Suc k)
  from prev_day_step [of "(prev_day ^^ k) c"] Suc show ?case by simp
qed

lemma days_after_number:
  assumes "valid_date c"
  shows "valid_date (days_after c v)" and "day_number (days_after c v) = day_number c + v"
  using next_days [OF assms, of "nat v"] prev_days [OF assms, of "nat (- v)"]
  by (simp_all add: days_after_def)

lemma base_date: "valid_date (1899, 12, 30)" "day_number (1899, 12, 30) = - 25569"
  by (simp_all add: valid_date_def days_in_month_def day_number_def DayFromYear_def
        days_before_month_def leap_year_def)


lemma show_nat_lt10: "n < 10 \<Longrightarrow> show_nat n = [digit_char n]"
  by (simp add: show_nat.simps)

lemma show_nat_ge10: "10 \<le> n \<Longrightarrow> show_nat n = show_nat (n div 10) @ [digit_char (n mod 10)]"
  by (subst show_nat.simps) simp

lemma digit_char_0: "digit_char 0 = CHR ''0''"
  by code_simp

lemma show_nat_lt100:
  assumes "10 \<le> n" "n < 100"
  shows "show_nat n = [digit_char (n div 10), digit_char (n mod 10)]"
proof -
  from assms have "n div 10 < 10" by simp
  then show ?thesis
    by (simp add: show_nat_ge10 [OF assms(1)] show_nat_lt10)
qed

lemma show_nat_lt1000:
  assumes "100 \<le> n" "n < 1000"
  shows "show_nat n = [digit_char (n div 100), digit_char (n div 10 mod 10), digit_char (n mod 10)]"
proof -
  from assms have a: "10 \<le> n" "10 \<le> n div 10" "n div 10 < 100" by simp_all
  have "n div 10 div 10 = n div 100" by (simp add: div_mult2_eq [symmetric])
  then show ?thesis
    by (simp add: show_nat_ge10 [OF a(1)] show_nat_lt100 [OF a(2,3)])
qed

lemma show_nat_lt10000:
  assumes "1000 \<le> n" "n < 10000"
  shows "show_nat n = [digit_char (n div 1000), digit_char (n div 100 mod 10),
     digit_char (n div 10 mod 10), digit_char (n mod 10)]"
proof -
  from assms have a: "10 \<le> n" "100 \<le> n div 10" "n div 10 < 1000" by simp_all
  have "n div 10 div 100 = n div 1000" "n div 10 div 10 = n div 100"
    by (simp_all add: div_mult2_eq [symmetric])
  then show ?thesis
    by (simp add: show_nat_ge10 [OF a(1)] show_nat_lt1000 [OF a(2,3)])
qed

lemma pad2_digits:
  assumes "n < 100"
  shows "padStart 2 CHR ''0'' (show_nat n) = [digit_char (n div 10), digit_char (n mod 10)]"
proof (cases "n < 10")
  case True
  then show ?thesis
    by (simp add: show_nat_lt10 padStart_def digit_char_0)
next
  case False
  then have "10 \<le> n" by simp
  from show_nat_lt100 [OF this assms] show ?thesis
    by (simp add: padStart_def)
qed

lemma pad4_digits:
  assumes "n < 10000"
  shows "padStart 4 CHR ''0'' (show_nat n) =
     [digit_char (n div 1000), digit_char (n div 100 mod 10), digit_char (n div 10 mod 10),
      digit_char (n mod 10)]"
proof -
  have rep: "replicate 3 c = [c, c, c]" "replicate 2 c = [c, c]" for c :: char
    by (simp_all add: numeral_3_eq_3 numeral_2_eq_2)
  consider "n < 10" | "10 \<le> n" "n < 100" | "100 \<le> n" "n < 1000" | "1000 \<le> n"
    by linarith
  then show ?thesis
  proof cases
    case 1
    then show ?thesis
      by (simp add: show_nat_lt10 padStart_def digit_char_0 rep)
  next
    case 2
    from show_nat_lt100 [OF 2] 2 show ?thesis
      by (simp add: padStart_def digit_char_0 rep)
  next
    case 3
    from show_nat_lt1000 [OF 3] 3 show ?thesis
      by (simp add: padStart_def digit_char_0)
  next
    case 4
    from show_nat_lt10000 [OF 4 assms] show ?thesis
      by (simp add: padStart_def)
  qed
qed

text \<open>The first ten characters of the ISO string of midnight of a date with a four-digit
  year.\<close>

lemma iso_date_of_day_number:
  assumes v: "valid_date (y, m, d)" and y: "0 \<le> y" "y \<le> 9999"
  shows "take 10 (toISOString (day_number (y, m, d) * msPerDay)) = ymd_string (y, m, d)"
proof -
  let ?t = "day_number (y, m, d) * msPerDay"
  from v have r: "1 \<le> m" "m \<le> 12" "1 \<le> d" "d \<le> 31"
    using days_in_month_range(2) [of y m] by (simp_all add: valid_date_def)
  have yy: "iso_year (YearFromTime ?t) =
      [digit_char (nat y div 1000), digit_char (nat y div 100 mod 10),
       digit_char (nat y div 10 mod 10), digit_char (nat y mod 10)]"
    unfolding civil_of_day_number(1) [OF v] iso_year_def using y pad4_digits [of "nat y"]
    by simp
  have mm: "pad2 (MonthFromTime ?t + 1) = [digit_char (nat m div 10), digit_char (nat m mod 10)]"
    unfolding civil_of_day_number(2) [OF v] pad2_def using r pad2_digits [of "nat m"]
    by simp
  have dd: "pad2 (DateFromTime ?t) = [digit_char (nat d div 10), digit_char (nat d mod 10)]"
    unfolding civil_of_day_number(3) [OF v] pad2_def using r pad2_digits [of "nat d"]
    by simp
  show ?thesis
    unfolding toISOString_def Let_def yy mm dd by (simp add: ymd_string_def)
qed

lemma year_in_range:
  assumes v: "valid_date (y, m, d)"
    and n: "- 719528 \<le> day_number (y, m, d)" "day_number (y, m, d) \<le> 2932896"
  shows "0 \<le> y" "y \<le> 9999"
proof -
  have d0: "DayFromYear 0 = - 719528" "DayFromYear 10000 = 2932897"
    by (simp_all add: DayFromYear_def)
  have k: "DayFromYear y \<le> day_number (y, m, d)" "day_number (y, m, d) < DayFromYear (y + 1)"
    using day_within_year [OF v] unfolding DayFromYear_Suc by (simp_all add: day_number_def)
  show "0 \<le> y"
  proof (rule ccontr)
    assume "\<not> 0 \<le> y"
    then have "y + 1 \<le> 0" by simp
    from DayFromYear_mono [OF this] k(2) n(1) d0(1) show False by linarith
  qed
  show "y \<le> 9999"
  proof (rule ccontr)
    assume "\<not> y \<le> 9999"
    then have "10000 \<le> y" by simp
    from DayFromYear_mono [OF this] k(1) n(2) d0(2) show False by linarith
  qed
qed

lemma iso_date_of_serial:
  assumes "- 693959 \<le> v" "v \<le> 2958465"
  shows "take 10 (toISOString ((v - 25569) * 86400 * 1000))
     = ymd_string (days_after (1899, 12, 30) v)"
proof -
  obtain y m d where c: "days_after (1899, 12, 30) v = (y, m, d)"
    by (cases "days_after (1899, 12, 30) v")
  from days_after_number [OF base_date(1), of v]
  have v: "valid_date (y, m, d)" and n: "day_number (y, m, d) = v - 25569"
    unfolding c base_date(2) by simp_all
  from assms have "- 719528 \<le> day_number (y, m, d)" "day_number (y, m, d) \<le> 2932896"
    unfolding n by simp_all
  from year_in_range [OF v this] have y: "0 \<le> y" "y \<le> 9999" .
  have t: "(v - 25569) * 86400 * 1000 = day_number (y, m, d) * msPerDay"
    unfolding n msPerDay_def by simp
  show ?thesis
    unfolding t c by (rule iso_date_of_day_number [OF v y])
qed

lemma epoch_offset: "days_after (1899, 12, 30) 25569 = (1970, 1, 1)"
proof -
  obtain y m d where c: "days_after (1899, 12, 30) 25569 = (y, m, d)"
    by (cases "days_after (1899, 12, 30) 25569")
  from days_after_number [OF base_date(1), of 25569]
  have v: "valid_date (y, m, d)" and n: "day_number (y, m, d) = 0"
    unfolding c base_date(2) by simp_all
  have e: "YearFromTime 0 = 1970" "MonthFromTime 0 = 0" "DateFromTime 0 = 1"
    by (simp_all add: YearFromTime_def YearFromDay_def DayFromYear_def Day_def msPerDay_def
          MonthFromTime_def DateFromTime_def DayWithinYear_def InLeapYear_def DaysInYear_def)
  from civil_of_day_number [OF v] e show ?thesis
    unfolding c n by simp
qed

text \<open>
  Claim C5, as stated, fails at \<open>v = 0\<close>: the guard \<^verbatim>\<open>if(!v) return null\<close> comes first and
  0 is falsy, so the normalizer returns null and not the date 0 days after 1899-12-30.
\<close>

theorem serial_zero_counterexample:
  "normalizeDate (Num 0) = Inr None
   \<and> ymd_string (days_after (1899, 12, 30) 0) = ''1899-12-30''"
  by code_simp

text \<open>
  Claim C5, amended.  For every integer serial day count \<open>v\<close> other than 0 from -693959 to
  2958465 (the dates of the years 0 to 9999), the normalizer returns the \<open>YYYY-MM-DD\<close>
  string of the calendar date \<open>v\<close> days after 1899-12-30; and 1899-12-30 lies 25569 days
  before 1970-01-01, the offset the source subtracts.
\<close>

theorem normalizeDate_serial:
  assumes "v \<noteq> 0" and "- 693959 \<le> v" and "v \<le> 2958465"
  shows "normalizeDate (Num v) = Inr (Some (ymd_string (days_after (1899, 12, 30) v)))
       \<and> days_after (1899, 12, 30) 25569 = (1970, 1, 1)"
proof -
  from assms(2,3) have "\<bar>v - 25569\<bar> \<le> 100000000" by simp
  with assms(1) have "normalizeDate (Num v)
      = Inr (Some (take 10 (toISOString ((v - 25569) * 86400 * 1000))))"
    unfolding normalizeDate_Num by simp
  then show ?thesis
    unfolding iso_date_of_serial [OF assms(2,3)] epoch_offset by simp
qed

theorem normalizeDate_serial_witness:
  "normalizeDate (Num 45000) = Inr (Some ''2023-03-15'')
   \<and> ymd_string (days_after (1899, 12, 30) 45000) = ''2023-03-15''"
proof -
  have e: "normalizeDate (Num 45000) = Inr (Some ''2023-03-15'')"
    by code_simp
  have "normalizeDate (Num 45000) = Inr (Some (ymd_string (days_after (1899, 12, 30) 45000)))"
    using normalizeDate_serial [of 45000] by simp
  with e show ?thesis by simp
qed

subsection \<open>Strings\<close>


















section \<open>Properties of the record mapper\<close>

lemmas th_defs = th_brand_name_def th_common_label_def th_registration_no_def th_importer_def
  th_manufacturer_source_def th_distributor_def th_packed_volume_def th_registration_date_def
  th_expiry_date_def th_license_no_def

lemma canonical_row_lookup:
  "canonical_row vals cc (canonical_name f) = vals f"
  "canonical_row vals cc (localized_name f) = Undefined"
  by (cases f; simp add: canonical_row_def row_under_def fields_def th_defs)+

lemma localized_row_lookup:
  "localized_row vals (canonical_name f) = Undefined"
  "localized_row vals (localized_name f) = vals f"
  by (cases f; simp add: localized_row_def row_under_def fields_def th_defs)+

lemma js_or_Undefined:
  "js_or (js_or Undefined a) d = js_or (js_or a Undefined) d"
  by (simp add: js_or_def)

lemma normalizeDate_js_or_Undefined:
  "normalizeDate (js_or Undefined a) = normalizeDate (js_or a Undefined)"
  by (simp add: js_or_def normalizeDate_def)

lemma map_row_localized:
  "map_row cc (localized_row vals) = map_row cc (canonical_row vals v)"
proof -
  have c: "canonical_row vals v ''brand_name'' = vals Brand_name"
    "canonical_row vals v ''common_label'' = vals Common_label"
    "canonical_row vals v ''registration_no'' = vals Registration_no"
    "canonical_row vals v ''importer'' = vals Importer"
    "canonical_row vals v ''manufacturer_source'' = vals Manufacturer_source"
    "canonical_row vals v ''distributor'' = vals Distributor"
    "canonical_row vals v ''packed_volume'' = vals Packed_volume"
    "canonical_row vals v ''registration_date'' = vals Registration_date"
    "canonical_row vals v ''expiry_date'' = vals Expiry_date"
    "canonical_row vals v ''license_no'' = vals License_no"
    using canonical_row_lookup(1) [of vals v Brand_name]
      canonical_row_lookup(1) [of vals v Common_label]
      canonical_row_lookup(1) [of vals v Registration_no]
      canonical_row_lookup(1) [of vals v Importer]
      canonical_row_lookup(1) [of vals v Manufacturer_source]
      canonical_row_lookup(1) [of vals v Distributor]
      canonical_row_lookup(1) [of vals v Packed_volume]
      canonical_row_lookup(1) [of vals v Registration_date]
      canonical_row_lookup(1) [of vals v Expiry_date]
      canonical_row_lookup(1) [of vals v License_no]
    by simp_all
  have cl: "canonical_row vals v th_brand_name = Undefined"
    "canonical_row vals v th_common_label = Undefined"
    "canonical_row vals v th_registration_no = Undefined"
    "canonical_row vals v th_importer = Undefined"
    "canonical_row vals v th_manufacturer_source = Undefined"
    "canonical_row vals v th_distributor = Undefined"
    "canonical_row vals v th_packed_volume = Undefined"
    "canonical_row vals v th_registration_date = Undefined"
    "canonical_row vals v th_expiry_date = Undefined"
    "canonical_row vals v th_license_no = Undefined"
    using canonical_row_lookup(2) [of vals v Brand_name]
      canonical_row_lookup(2) [of vals v Common_label]
      canonical_row_lookup(2) [of vals v Registration_no]
      canonical_row_lookup(2) [of vals v Importer]
      canonical_row_lookup(2) [of vals v Manufacturer_source]
      canonical_row_lookup(2) [of vals v Distributor]
      canonical_row_lookup(2) [of vals v Packed_volume]
      canonical_row_lookup(2) [of vals v Registration_date]
      canonical_row_lookup(2) [of vals v Expiry_date]
      canonical_row_lookup(2) [of vals v License_no]
    by simp_all
  have l: "localized_row vals ''brand_name'' = Undefined"
    "localized_row vals ''common_label'' = Undefined"
    "localized_row vals ''registration_no'' = Undefined"
    "localized_row vals ''importer'' = Undefined"
    "localized_row vals ''manufacturer_source'' = Undefined"
    "localized_row vals ''distributor'' = Undefined"
    "localized_row vals ''packed_volume'' = Undefined"
    "localized_row vals ''registration_date'' = Undefined"
    "localized_row vals ''expiry_date'' = Undefined"
    "localized_row vals ''license_no'' = Undefined"
    using localized_row_lookup(1) [of vals Brand_name]
      localized_row_lookup(1) [of vals Common_label]
      localized_row_lookup(1) [of vals Registration_no]
      localized_row_lookup(1) [of vals Importer]
      localized_row_lookup(1) [of vals Manufacturer_source]
      localized_row_lookup(1) [of vals Distributor]
      localized_row_lookup(1) [of vals Packed_volume]
      localized_row_lookup(1) [of vals Registration_date]
      localized_row_lookup(1) [of vals Expiry_date]
      localized_row_lookup(1) [of vals License_no]
    by simp_all
  have ll: "localized_row vals th_brand_name = vals Brand_name"
    "localized_row vals th_common_label = vals Common_label"
    "localized_row vals th_registration_no = vals Registration_no"
    "localized_row vals th_importer = vals Importer"
    "localized_row vals th_manufacturer_source = vals Manufacturer_source"
    "localized_row vals th_distributor = vals Distributor"
    "localized_row vals th_packed_volume = vals Packed_volume"
    "localized_row vals th_registration_date = vals Registration_date"
    "localized_row vals th_expiry_date = vals Expiry_date"
    "localized_row vals th_license_no = vals License_no"
    using localized_row_lookup(2) [of vals Brand_name]
      localized_row_lookup(2) [of vals Common_label]
      localized_row_lookup(2) [of vals Registration_no]
      localized_row_lookup(2) [of vals Importer]
      localized_row_lookup(2) [of vals Manufacturer_source]
      localized_row_lookup(2) [of vals Distributor]
      localized_row_lookup(2) [of vals Packed_volume]
      localized_row_lookup(2) [of vals Registration_date]
      localized_row_lookup(2) [of vals Expiry_date]
      localized_row_lookup(2) [of vals License_no]
    by simp_all
  show ?thesis
    unfolding map_row_def c cl l ll js_or_Undefined normalizeDate_js_or_Undefined ..
qed

text \<open>A row whose two date cells the normalizer accepts maps to a record: the two names
  trimmed, the two dates normalized, and each other field the first truthy cell among the
  canonical and the localized column, or null.\<close>

lemma map_row_returns:
  assumes "\<not> out_of_range (js_or (r ''registration_date'') (r th_registration_date))"
    and "\<not> out_of_range (js_or (r ''expiry_date'') (r th_expiry_date))"
  shows "\<exists>rd ed.
      normalizeDate (js_or (r ''registration_date'') (r th_registration_date)) = Inr rd
      \<and> normalizeDate (js_or (r ''expiry_date'') (r th_expiry_date)) = Inr ed
      \<and> map_row cc r = Inr
          \<lparr>company_code = cc,
           brand_name =
             trim (String_of (js_or (js_or (r ''brand_name'') (r th_brand_name)) (Str []))),
           common_label =
             trim (String_of (js_or (js_or (r ''common_label'') (r th_common_label)) (Str []))),
           registration_no = js_or (js_or (r ''registration_no'') (r th_registration_no)) Null,
           importer = js_or (js_or (r ''importer'') (r th_importer)) Null,
           manufacturer_source =
             js_or (js_or (r ''manufacturer_source'') (r th_manufacturer_source)) Null,
           distributor = js_or (js_or (r ''distributor'') (r th_distributor)) Null,
           packed_volume = js_or (js_or (r ''packed_volume'') (r th_packed_volume)) Null,
           registration_date = rd, expiry_date = ed,
           license_no = js_or (js_or (r ''license_no'') (r th_license_no)) Null\<rparr>"
proof -
  from normalizeDate_returns [OF assms(1)] obtain rd
    where rd: "normalizeDate (js_or (r ''registration_date'') (r th_registration_date)) = Inr rd" ..
  from normalizeDate_returns [OF assms(2)] obtain ed
    where ed: "normalizeDate (js_or (r ''expiry_date'') (r th_expiry_date)) = Inr ed" ..
  show ?thesis
    by (simp add: map_row_def rd ed Let_def)
qed

text \<open>Such a row is left out of the result, with no error, exactly when one of the two
  trimmed names is empty.\<close>

lemma mapped_records_single:
  assumes "map_row cc r = Inr x"
  shows "mapped_records cc [r] = Inr (if brand_name x = [] \<or> common_label x = [] then [] else [x])"
  by (simp add: mapped_records_def assms keeps_def)

lemma mapper_examples:
  "map_row (Some ''ACME'') (localized_row vals0) = Inr rec_vals0"
  "mapped_records (Some ''ACME'') [localized_row vals0] = Inr [rec_vals0]"
  "mapped_records (Some ''ACME'') [row_nobrand] = Inr []"
  "mapped_records (Some ''ACME'') [row_nbsp_brand] = Inr []"
  by code_simp+

text \<open>
  Claim C7 fails in the code on a row with a numeric date cell beyond the range of a Date.
  Line 191 guards the Date branch of the normalizer with \<^verbatim>\<open>!isNaN(v)\<close>; the number branch
  of line 192 builds a Date from the serial number and calls \<^verbatim>\<open>toISOString\<close> on it
  unguarded, which throws a RangeError when the Date is invalid.  The throw leaves
  \<^verbatim>\<open>records.map\<close>, and the handler answers the whole request with status 500.  Here the
  file has a valid row and a row with no brand name whose \<open>registration_date\<close> cell is the
  number 1000000000: the claim drops the second row with no error and keeps the first, the
  handler reports an error and stores nothing.  With an invalid Date object in the same
  cell the second row is dropped and the first is kept.
\<close>

theorem numeric_date_out_of_range_fails_import:
  "trim (String_of (js_or (js_or (row_far_date ''brand_name'') (row_far_date th_brand_name))
            (Str []))) = []
   \<and> normalizeDate (Num 1000000000) = Inl RangeError
   \<and> mapped_records (Some ''ACME'') [row0, row_far_date] = Inl RangeError
   \<and> import_csv (mem_backend fails_never) mem0
         (import_req [row0, row_far_date] None (Some ''ACME''))
       = (Error 500 ''Invalid time value'', mem0, [])
   \<and> normalizeDate InvalidDate = Inr None
   \<and> mapped_records (Some ''ACME'') [row0, row_invalid_date] = Inr [rec0]"
  by code_simp
section \<open>Properties of the import pipeline\<close>

subsection \<open>Batches\<close>

lemma batches_Nil [simp]: "batches n [] = []"
  by (simp add: batches.simps)

lemma batches_step:
  "0 < n \<Longrightarrow> xs \<noteq> [] \<Longrightarrow> batches n xs = take n xs # batches n (drop n xs)"
  by (subst batches.simps) simp

lemma concat_batches: "0 < n \<Longrightarrow> concat (batches n xs) = xs"
proof (induction n xs rule: batches.induct)
  case (1 n xs)
  show ?case
  proof (cases "xs = []")
    case True
    then show ?thesis by simp
  next
    case False
    with 1 show ?thesis
      by (simp add: batches_step)
  qed
qed

lemma batches_bounded: "list_all (\<lambda>c. length c \<le> n) (batches n xs)"
proof (induction n xs rule: batches.induct)
  case (1 n xs)
  show ?case
  proof (cases "n = 0 \<or> xs = []")
    case True
    then show ?thesis by (auto simp: batches.simps)
  next
    case False
    with 1 show ?thesis
      by (simp add: batches_step)
  qed
qed

lemma error_messages_simps [simp]:
  "error_messages [] = []"
  "error_messages (Insert c (Some m) # tr) = m # error_messages tr"
  "error_messages (Insert c None # tr) = error_messages tr"
  "error_messages (Delete v # tr) = error_messages tr"
  by (simp_all add: error_messages_def List.map_filter_simps)

lemma failed_rows_Cons:
  "failed_rows (Insert c e # tr) = (if e = None then 0 else length c) + failed_rows tr"
  by (simp add: failed_rows_def)

lemma stored_rows_Cons:
  "stored_rows (Insert c e # tr) = (if e = None then length c else 0) + stored_rows tr"
  by (simp add: stored_rows_def)

lemma rows_sum: "stored_rows tr + failed_rows tr = length (concat (map chunk_of tr))"
proof (induction tr)
  case Nil
  show ?case by (simp add: stored_rows_def failed_rows_def)
next
  case (Cons c tr)
  then show ?case
    by (cases c) (auto simp: stored_rows_def failed_rows_def)
qed

lemma ceil_500: "(k + 499 + 500) div 500 = Suc ((k + 499) div (500::nat))"
  by (simp only: div_add_self2 [of 500 "k + 499"])

text \<open>One more chunk is one more call: the number of calls still to come, rounded up.\<close>

lemma ceil_step:
  fixes n i :: nat
  assumes "i < n"
  shows "(n - i + (CHUNK - 1)) div CHUNK = Suc ((n - (i + CHUNK) + (CHUNK - 1)) div CHUNK)"
proof (cases "i + 500 \<le> n")
  case True
  then obtain k where k: "n = (i + 500) + k"
    using le_Suc_ex by blast
  have "n - i = k + 500" "n - (i + 500) = k"
    unfolding k by simp_all
  then show ?thesis
    unfolding CHUNK_def using ceil_500 [of k] by simp
next
  case False
  then have z: "n - (i + 500) = 0" by simp
  from assms False have "500 * 1 \<le> n - i + 499" "n - i + 499 < 500 * Suc 1" by simp_all
  then have "(n - i + 499) div 500 = 1"
    by (rule div_nat_eqI)
  then show ?thesis
    unfolding CHUNK_def z by simp
qed


text \<open>The number of batches of 500: the length divided by 500, rounded up.\<close>

lemma length_batches_500: "length (batches 500 xs) = (length xs + 499) div 500"
proof (induction "500 :: nat" xs rule: batches.induct)
  case (1 xs)
  show ?case
  proof (cases "xs = []")
    case True
    then show ?thesis by simp
  next
    case False
    then have pos: "0 < length xs" by simp
    have "length (batches 500 xs) = Suc (length (batches 500 (drop 500 xs)))"
      using False by (simp add: batches_step)
    also have "\<dots> = Suc ((length xs - 500 + 499) div 500)"
      using 1 False by simp
    also have "\<dots> = (length xs + 499) div 500"
      using ceil_step [OF pos] by (simp add: CHUNK_def)
    finally show ?thesis .
  qed
qed

subsection \<open>Sending the batches\<close>

lemma send_batches_calls:
  "map chunk_of (fst (send_batches sb st cs)) = cs
   \<and> filter is_Delete (fst (send_batches sb st cs)) = []"
proof (induction cs arbitrary: st)
  case Nil
  show ?case by simp
next
  case (Cons c cs)
  obtain err st1 where ir: "insert_rows sb st c = (err, st1)"
    by (cases "insert_rows sb st c")
  obtain tr st2 where sb: "send_batches sb st1 cs = (tr, st2)"
    by (cases "send_batches sb st1 cs")
  from Cons [of st1] show ?case
    by (simp add: ir sb)
qed

text \<open>The loop from index \<open>i\<close> sends the batches of the rest of the list, and adds to the
  results what the answers say.\<close>

lemma insert_chunks_send:
  "send_batches sb st (batches CHUNK (drop i mapped)) = (ins, st') \<Longrightarrow>
   insert_chunks sb mapped i (st, res, tr) =
     (st', res\<lparr>success := success res + stored_rows ins, failed := failed res + failed_rows ins,
              errors := errors res @ error_messages ins\<rparr>, tr @ ins)"
proof (induction sb mapped i "(st, res, tr)" arbitrary: st res tr ins st'
    rule: insert_chunks.induct)
  case (1 sb mapped i st res tr)
  show ?case
  proof (cases "i < length mapped")
    case False
    with "1.prems" have "ins = []" "st' = st"
      by simp_all
    with False show ?thesis
      by (simp add: insert_chunks.simps stored_rows_def failed_rows_def)
  next
    case True
    let ?chunk = "take CHUNK (drop i mapped)"
    obtain err st1 where ir: "insert_rows sb st ?chunk = (err, st1)"
      by (cases "insert_rows sb st ?chunk")
    obtain ins1 st2 where sb1:
      "send_batches sb st1 (batches CHUNK (drop (i + CHUNK) mapped)) = (ins1, st2)"
      by (cases "send_batches sb st1 (batches CHUNK (drop (i + CHUNK) mapped))")
    have b: "batches CHUNK (drop i mapped) = ?chunk # batches CHUNK (drop (i + CHUNK) mapped)"
      using True by (simp add: batches_step CHUNK_def add.commute)
    from "1.prems" have e: "ins = Insert ?chunk err # ins1" "st' = st2"
      unfolding b by (simp_all add: ir sb1)
    let ?res1 = "(case err of
                    Some m \<Rightarrow> res\<lparr>failed := failed res + length ?chunk, errors := errors res @ [m]\<rparr>
                  | None \<Rightarrow> res\<lparr>success := success res + length ?chunk\<rparr>)"
    have "insert_chunks sb mapped i (st, res, tr) =
        insert_chunks sb mapped (i + CHUNK) (st1, ?res1, tr @ [Insert ?chunk err])"
      using True ir by (simp add: insert_chunks.simps [of sb mapped i] Let_def)
    also have "\<dots> = (st2, ?res1\<lparr>success := success ?res1 + stored_rows ins1,
                              failed := failed ?res1 + failed_rows ins1,
                              errors := errors ?res1 @ error_messages ins1\<rparr>,
                      (tr @ [Insert ?chunk err]) @ ins1)"
      using "1.hyps" [OF True refl refl ir [symmetric] refl sb1] .
    also have "\<dots> = (st', res\<lparr>success := success res + stored_rows ins,
                              failed := failed res + failed_rows ins,
                              errors := errors res @ error_messages ins\<rparr>, tr @ ins)"
      unfolding e by (cases err) (simp_all add: stored_rows_Cons failed_rows_Cons)
    finally show ?thesis .
  qed
qed

subsection \<open>Delete, then the loop\<close>

lemma run_import_send:
  assumes "send_batches sb (if rm then delete_eq sb st cc else st) (batches 500 mapped) = (ins, st')"
  shows "run_import sb st rm cc mapped =
     (st', \<lparr>total = length mapped, success = stored_rows ins, failed = failed_rows ins,
            errors = error_messages ins\<rparr>, (if rm then [Delete cc] else []) @ ins)"
proof -
  from assms have "send_batches sb (if rm then delete_eq sb st cc else st)
      (batches CHUNK (drop 0 mapped)) = (ins, st')"
    by (simp add: CHUNK_def)
  from insert_chunks_send
      [OF this, of "\<lparr>total = length mapped, success = 0, failed = 0, errors = []\<rparr>"
          "if rm then [Delete cc] else []"]
  show ?thesis
    by (cases rm) (simp_all add: run_import_def)
qed

lemma run_import_nothing:
  "run_import sb st True cc [] =
     (delete_eq sb st cc, \<lparr>total = 0, success = 0, failed = 0, errors = []\<rparr>, [Delete cc])"
  by (simp add: run_import_def insert_chunks.simps)

text \<open>The handler on a file that parses and whose rows map without error: it answers with
  the results of the pipeline.\<close>

lemma import_csv_Parsed:
  assumes "req_file req = Parsed records"
    and "mapped_records (body_company_code req) records = Inr mapped"
    and "run_import sb st (replace_flag req) (body_company_code req) mapped = (st', res, tr)"
  shows "import_csv sb st req = (Ok_results res, st', tr)"
  using assms by (simp add: import_csv_def)

subsection \<open>The reference backend\<close>

lemma mem_delete_empties_scope:
  "scope c (delete_eq (mem_backend fails) m (Some c)) = []"
  by (simp add: scope_def mem_backend_def filter_text_def)

lemma mem_failed_insert_keeps_table:
  "fails (inserts_seen s) \<noteq> None \<Longrightarrow>
     table (snd (insert_rows (mem_backend fails) s chunk)) = table s"
  by (auto simp: mem_backend_def split: option.splits)

lemma mem_all_fail_keeps_table:
  assumes "\<And>k. fails k \<noteq> None"
  shows "table (snd (send_batches (mem_backend fails) s cs)) = table s"
proof (induction cs arbitrary: s)
  case Nil
  show ?case by simp
next
  case (Cons c cs)
  obtain err s1 where ir: "insert_rows (mem_backend fails) s c = (err, s1)"
    by (cases "insert_rows (mem_backend fails) s c")
  have "table s1 = table s"
    using mem_failed_insert_keeps_table [of fails s c] assms ir by simp
  moreover obtain tr s2 where sb: "send_batches (mem_backend fails) s1 cs = (tr, s2)"
    by (cases "send_batches (mem_backend fails) s1 cs")
  ultimately show ?case
    using Cons [of s1] by (simp add: ir)
qed

subsection \<open>Runs on concrete files\<close>

lemma map_row0: "map_row (Some ''ACME'') row0 = Inr rec0"
  by code_simp

lemma map_rows_replicate:
  "map_row cc r = Inr x \<Longrightarrow> map_rows cc (replicate n r) = Inr (replicate n x)"
  by (induction n) simp_all

lemma mapped_1200:
  "mapped_records (Some ''ACME'') (replicate 1200 row0) = Inr (replicate 1200 rec0)"
  by (simp add: mapped_records_def map_rows_replicate [OF map_row0] keeps_def rec0_def)

lemma mapped_none: "mapped_records (Some ''ACME'') [row_nobrand, row_nocommon] = Inr []"
  by code_simp


text \<open>The three batches of 1200 records.\<close>

lemma batches_1200:
  "batches 500 (replicate 1200 x) = [replicate 500 x, replicate 500 x, replicate 200 x]"
  by (simp add: batches_step)

text \<open>A request without a file is answered by the guard of line 173, before any call.\<close>

lemma import_without_file:
  "req_file req = NoFile \<Longrightarrow> import_csv sb st req = (Error 400 ''missing file'', st, [])"
  by (simp add: import_csv_def)

subsection \<open>The claims\<close>

text \<open>
  Claim C3.  Let the uploaded file parse and let \<open>mapped\<close> be the records that survive
  the mapper's filter, \<open>N\<close> of them.  After the optional delete the handler sends the
  batches of 500 of \<open>mapped\<close> to the backend, one insert call per batch, each on the state
  the previous call left, whatever the answers: \<open>ins\<close> are these calls with the answers
  of the backend and \<open>st'\<close> is the state after the last one.  The calls are
  \<open>ceil (N / 500)\<close> in number, of at most 500 records each, and carry the mapped records
  in order.  In the results, \<open>total\<close> is \<open>N\<close>; \<open>failed\<close> is the sum of the sizes of the
  batches whose insert the backend answered with an error; \<open>errors\<close> holds the messages
  of these answers, one per failed batch, in order; \<open>success\<close> is the sum of the sizes
  of the other batches; and \<open>success + failed = total\<close>.
\<close>

theorem import_batches:
  assumes "req_file req = Parsed records"
    and "mapped_records (body_company_code req) records = Inr mapped"
    and "send_batches sb
           (if replace_flag req then delete_eq sb st (body_company_code req) else st)
           (batches 500 mapped) = (ins, st')"
  shows "import_csv sb st req =
           (Ok_results \<lparr>total = length mapped, success = stored_rows ins,
                        failed = failed_rows ins, errors = error_messages ins\<rparr>,
            st', (if replace_flag req then [Delete (body_company_code req)] else []) @ ins)
       \<and> map chunk_of ins = batches 500 mapped
       \<and> length ins = (length mapped + 499) div 500
       \<and> list_all (\<lambda>c. length (chunk_of c) \<le> 500) ins
       \<and> concat (map chunk_of ins) = mapped
       \<and> stored_rows ins + failed_rows ins = length mapped"
proof -
  have 1: "import_csv sb st req =
           (Ok_results \<lparr>total = length mapped, success = stored_rows ins,
                        failed = failed_rows ins, errors = error_messages ins\<rparr>,
            st', (if replace_flag req then [Delete (body_company_code req)] else []) @ ins)"
    using import_csv_Parsed [OF assms(1,2) run_import_send [OF assms(3)]] .
  have 2: "map chunk_of ins = batches 500 mapped"
    using send_batches_calls
      [of sb "if replace_flag req then delete_eq sb st (body_company_code req) else st"
          "batches 500 mapped"]
    by (simp add: assms(3))
  have 3: "length ins = (length mapped + 499) div 500"
    using arg_cong [OF 2, of length] by (simp add: length_batches_500)
  have 4: "list_all (\<lambda>c. length (chunk_of c) \<le> 500) ins"
    using batches_bounded [of 500 mapped] unfolding 2 [symmetric]
    by (simp add: list_all_iff)
  have 5: "concat (map chunk_of ins) = mapped"
    unfolding 2 by (simp add: concat_batches)
  have 6: "stored_rows ins + failed_rows ins = length mapped"
    using rows_sum [of ins] unfolding 5 .
  from 1 2 3 4 5 6 show ?thesis by blast
qed

theorem import_batches_witness:
  "import_csv (mem_backend fails_second) mem0
       (import_req (replicate 1200 row0) (Some ''true'') (Some ''ACME''))
     = (Ok_results \<lparr>total = 1200, success = 700, failed = 500, errors = [''timeout'']\<rparr>,
        \<lparr>table = [reg0\<lparr>company_code := Some ''OTHER''\<rparr>] @ replicate 500 rec0
                   @ replicate 200 rec0,
         inserts_seen = 3\<rparr>,
        [Delete (Some ''ACME''), Insert (replicate 500 rec0) None,
         Insert (replicate 500 rec0) (Some ''timeout''), Insert (replicate 200 rec0) None])
   \<and> (1200 + 499) div 500 = (3 :: nat)"
proof -
  let ?req = "import_req (replicate 1200 row0) (Some ''true'') (Some ''ACME'')"
  have p: "req_file ?req = Parsed (replicate 1200 row0)"
    by (simp add: import_req_def)
  have m: "mapped_records (body_company_code ?req) (replicate 1200 row0)
      = Inr (replicate 1200 rec0)"
    by (simp add: import_req_def mapped_1200)
  have s: "send_batches (mem_backend fails_second)
      (if replace_flag ?req
       then delete_eq (mem_backend fails_second) mem0 (body_company_code ?req) else mem0)
      (batches 500 (replicate 1200 rec0))
    = ([Insert (replicate 500 rec0) None, Insert (replicate 500 rec0) (Some ''timeout''),
        Insert (replicate 200 rec0) None],
       \<lparr>table = [reg0\<lparr>company_code := Some ''OTHER''\<rparr>] @ replicate 500 rec0
                  @ replicate 200 rec0,
        inserts_seen = 3\<rparr>)"
    by (simp add: batches_1200 replace_flag_def import_req_def mem_backend_def fails_second_def
          mem0_def reg0_def filter_text_def)
  show ?thesis
    using import_batches [OF p m s]
    by (simp add: import_req_def replace_flag_def stored_rows_def failed_rows_def)
qed

text \<open>
  Claim C4, as stated, fails: not every import request with the replace flag set issues a
  delete.  A request without a file is answered with status 400 by the guard of line 173,
  and no call is made.
\<close>

theorem replace_without_file_counterexample:
  "replace_flag req_nofile
   \<and> import_csv (mem_backend fails_never) mem0 req_nofile
       = (Error 400 ''missing file'', mem0, [])"
  by code_simp

text \<open>
  Claim C4, amended.  Let the uploaded file parse and its rows map without error.  When
  the replace flag is set, the handler issues the delete for the request's company code
  first and once: the batches are sent to the state the delete left, the trace is the
  delete followed by the insert calls, and no other delete is among them.  When the flag
  is not set, the batches are sent to the state as it was and the trace holds no delete.
  The delete and the inserts are separate calls: on the reference backend, when the delete
  is done and every insert is answered with an error, no record of the scope is left.
\<close>

theorem replace_deletes_once_before_inserts:
  assumes "req_file req = Parsed records"
    and "mapped_records (body_company_code req) records = Inr mapped"
    and "send_batches sb (delete_eq sb st (body_company_code req)) (batches 500 mapped)
           = (ins, st1)"
    and "send_batches sb st (batches 500 mapped) = (ins0, st0)"
  shows "(replace_flag req
            \<longrightarrow> snd (import_csv sb st req) = (st1, Delete (body_company_code req) # ins))
       \<and> (\<not> replace_flag req \<longrightarrow> snd (import_csv sb st req) = (st0, ins0))
       \<and> filter is_Delete ins = [] \<and> filter is_Delete ins0 = []
       \<and> (replace_flag req \<and> body_company_code req = Some c \<and> (\<forall>k. fails k \<noteq> None)
            \<longrightarrow> scope c (fst (snd (import_csv (mem_backend fails) m req))) = [])"
proof -
  have 1: "snd (import_csv sb st req) = (st1, Delete (body_company_code req) # ins)"
    if r: "replace_flag req"
  proof -
    from assms(3) r
    have "send_batches sb
        (if replace_flag req then delete_eq sb st (body_company_code req) else st)
        (batches 500 mapped) = (ins, st1)"
      by simp
    from import_csv_Parsed [OF assms(1,2) run_import_send [OF this]] r show ?thesis
      by simp
  qed
  have 2: "snd (import_csv sb st req) = (st0, ins0)" if r: "\<not> replace_flag req"
  proof -
    from assms(4) r
    have "send_batches sb
        (if replace_flag req then delete_eq sb st (body_company_code req) else st)
        (batches 500 mapped) = (ins0, st0)"
      by simp
    from import_csv_Parsed [OF assms(1,2) run_import_send [OF this]] r show ?thesis
      by simp
  qed
  have 3: "filter is_Delete ins = []" "filter is_Delete ins0 = []"
    using send_batches_calls [of sb "delete_eq sb st (body_company_code req)" "batches 500 mapped"]
      send_batches_calls [of sb st "batches 500 mapped"]
    by (simp_all add: assms(3,4))
  have 4: "scope c (fst (snd (import_csv (mem_backend fails) m req))) = []"
    if r: "replace_flag req" and c: "body_company_code req = Some c" and f: "\<forall>k. fails k \<noteq> None"
  proof -
    obtain ins' m' where s:
      "send_batches (mem_backend fails)
         (if replace_flag req then delete_eq (mem_backend fails) m (body_company_code req) else m)
         (batches 500 mapped) = (ins', m')"
      by (cases "send_batches (mem_backend fails)
         (if replace_flag req then delete_eq (mem_backend fails) m (body_company_code req) else m)
         (batches 500 mapped)")
    have "table m' = table (delete_eq (mem_backend fails) m (Some c))"
      using mem_all_fail_keeps_table
          [of fails "delete_eq (mem_backend fails) m (Some c)" "batches 500 mapped"] f s r c
      by simp
    then show ?thesis
      using mem_delete_empties_scope [of c fails m]
      unfolding import_csv_Parsed [OF assms(1,2) run_import_send [OF s]]
      by (simp add: scope_def)
  qed
  from 1 2 3 4 show ?thesis by blast
qed

theorem replace_deletes_once_before_inserts_witness:
  "snd (import_csv (mem_backend fails_always) mem0
          (import_req (replicate 1200 row0) (Some ''true'') (Some ''ACME'')))
     = (\<lparr>table = [reg0\<lparr>company_code := Some ''OTHER''\<rparr>], inserts_seen = 3\<rparr>,
        [Delete (Some ''ACME''), Insert (replicate 500 rec0) (Some ''unavailable''),
         Insert (replicate 500 rec0) (Some ''unavailable''),
         Insert (replicate 200 rec0) (Some ''unavailable'')])
   \<and> snd (import_csv (mem_backend fails_always) mem0
          (import_req (replicate 1200 row0) None (Some ''ACME'')))
     = (\<lparr>table = [reg0, reg0\<lparr>company_code := Some ''OTHER''\<rparr>], inserts_seen = 3\<rparr>,
        [Insert (replicate 500 rec0) (Some ''unavailable''),
         Insert (replicate 500 rec0) (Some ''unavailable''),
         Insert (replicate 200 rec0) (Some ''unavailable'')])
   \<and> scope ''ACME'' mem0 = [reg0]
   \<and> scope ''ACME'' (fst (snd (import_csv (mem_backend fails_always) mem0
         (import_req (replicate 1200 row0) (Some ''true'') (Some ''ACME''))))) = []"
proof -
  let ?ins = "[Insert (replicate 500 rec0) (Some ''unavailable''),
         Insert (replicate 500 rec0) (Some ''unavailable''),
         Insert (replicate 200 rec0) (Some ''unavailable'')]"
  have p: "req_file (import_req (replicate 1200 row0) rm (Some ''ACME''))
      = Parsed (replicate 1200 row0)" for rm
    by (simp add: import_req_def)
  have m: "mapped_records (body_company_code (import_req (replicate 1200 row0) rm (Some ''ACME'')))
      (replicate 1200 row0) = Inr (replicate 1200 rec0)" for rm
    by (simp add: import_req_def mapped_1200)
  have s1: "send_batches (mem_backend fails_always)
      (delete_eq (mem_backend fails_always) mem0
         (body_company_code (import_req (replicate 1200 row0) rm (Some ''ACME''))))
      (batches 500 (replicate 1200 rec0))
    = (?ins, \<lparr>table = [reg0\<lparr>company_code := Some ''OTHER''\<rparr>], inserts_seen = 3\<rparr>)" for rm
    by (simp add: batches_1200 import_req_def mem_backend_def fails_always_def
          mem0_def reg0_def filter_text_def)
  have s0: "send_batches (mem_backend fails_always) mem0 (batches 500 (replicate 1200 rec0))
    = (?ins, \<lparr>table = [reg0, reg0\<lparr>company_code := Some ''OTHER''\<rparr>], inserts_seen = 3\<rparr>)"
    by (simp add: batches_1200 mem_backend_def fails_always_def mem0_def)
  have f: "replace_flag (import_req (replicate 1200 row0) (Some ''true'') (Some ''ACME''))"
    "\<not> replace_flag (import_req (replicate 1200 row0) None (Some ''ACME''))"
    "body_company_code (import_req (replicate 1200 row0) (Some ''true'') (Some ''ACME''))
       = Some ''ACME''"
    "\<forall>k. fails_always k \<noteq> None"
    by (simp_all add: replace_flag_def import_req_def fails_always_def)
  have s: "scope ''ACME'' mem0 = [reg0]"
    by (simp add: scope_def mem0_def reg0_def)
  show ?thesis
    using replace_deletes_once_before_inserts
        [OF p m s1 s0, of "Some ''true''" "''ACME''" fails_always mem0]
      replace_deletes_once_before_inserts
        [OF p m s1 s0, of None "''ACME''" fails_always mem0]
      f s
    by (simp add: scope_def reg0_def)
qed

text \<open>
  Claim C10.  Let the uploaded file parse, the replace flag be set, and no row survive the
  mapper's filter.  The handler still issues the delete for the request's company code
  and nothing else, and answers with the results \<open>total 0, success 0, failed 0\<close> and no
  error; on the reference backend the scope is empty afterwards.
\<close>

theorem replace_with_no_surviving_rows:
  assumes "req_file req = Parsed records"
    and "replace_flag req"
    and "mapped_records (body_company_code req) records = Inr []"
  shows "import_csv sb st req =
           (Ok_results \<lparr>total = 0, success = 0, failed = 0, errors = []\<rparr>,
            delete_eq sb st (body_company_code req), [Delete (body_company_code req)])
       \<and> (body_company_code req = Some c
            \<longrightarrow> scope c (fst (snd (import_csv (mem_backend fails) m req))) = [])"
proof -
  have run: "run_import sb' st' (replace_flag req) (body_company_code req) [] =
      (delete_eq sb' st' (body_company_code req),
       \<lparr>total = 0, success = 0, failed = 0, errors = []\<rparr>, [Delete (body_company_code req)])"
    for sb' :: "'b backend" and st'
    using assms(2) by (simp add: run_import_nothing)
  show ?thesis
    unfolding import_csv_Parsed [OF assms(1,3) run]
    using mem_delete_empties_scope [of c fails m] by simp
qed

theorem replace_with_no_surviving_rows_witness:
  "import_csv (mem_backend fails_never) mem0
       (import_req [row_nobrand, row_nocommon] (Some ''1'') (Some ''ACME''))
     = (Ok_results \<lparr>total = 0, success = 0, failed = 0, errors = []\<rparr>,
        \<lparr>table = [reg0\<lparr>company_code := Some ''OTHER''\<rparr>], inserts_seen = 0\<rparr>,
        [Delete (Some ''ACME'')])
   \<and> scope ''ACME'' mem0 = [reg0]
   \<and> scope ''ACME'' (fst (snd (import_csv (mem_backend fails_never) mem0
        (import_req [row_nobrand, row_nocommon] (Some ''1'') (Some ''ACME''))))) = []"
proof -
  have p: "req_file (import_req [row_nobrand, row_nocommon] (Some ''1'') (Some ''ACME''))
      = Parsed [row_nobrand, row_nocommon]"
    and r: "replace_flag (import_req [row_nobrand, row_nocommon] (Some ''1'') (Some ''ACME''))"
    and m: "mapped_records
      (body_company_code (import_req [row_nobrand, row_nocommon] (Some ''1'') (Some ''ACME'')))
      [row_nobrand, row_nocommon] = Inr []"
    by (simp_all add: import_req_def replace_flag_def mapped_none)
  have d: "delete_eq (mem_backend fails_never) mem0 (Some ''ACME'')
      = \<lparr>table = [reg0\<lparr>company_code := Some ''OTHER''\<rparr>], inserts_seen = 0\<rparr>"
    by (simp add: mem_backend_def mem0_def reg0_def filter_text_def)
  have s: "scope ''ACME'' mem0 = [reg0]"
    by (simp add: scope_def mem0_def reg0_def)
  show ?thesis
    using replace_with_no_surviving_rows
        [OF p r m, of "mem_backend fails_never" mem0 "''ACME''" fails_never mem0] d s
    by (simp add: import_req_def scope_def reg0_def)
qed

lemma export_requires_code:
  "\<not> truthy_str qcode \<Longrightarrow> export_xlsx select_eq qcode = (Export_error 400 ''missing code'', [])"
  by (auto simp: export_xlsx_def or_str_def truthy_str_def split: option.splits)

text \<open>
  Claim C8 holds for the export and fails for the import.  The export handler answers a
  request without a \<open>code\<close> parameter with status 400 before it queries the table.  The
  import handler never looks at whether \<open>company_code\<close> is present: a request with a file
  and no \<open>company_code\<close> runs the pipeline, here with a delete and an insert, and is
  answered with the results.
\<close>

theorem import_without_company_code_runs:
  "import_csv (mem_backend fails_never) mem0 (import_req [row0] (Some ''1'') None)
   = (Ok_results \<lparr>total = 1, success = 1, failed = 0, errors = []\<rparr>,
      \<lparr>table = table mem0 @ [rec0\<lparr>company_code := None\<rparr>], inserts_seen = 1\<rparr>,
      [Delete None, Insert [rec0\<lparr>company_code := None\<rparr>] None])"
  by code_simp

end
